theory Spec2Isabelle
  imports Main "HOL-Library.Char_ord" "HOL-Library.List_Lexorder" "HOL-Library.AList"
    "HOL-Library.Monad_Syntax"
begin

section \<open>Python values and builtins used by \<open>scripts/run.py\<close>\<close>

text \<open>
  A schema is what \<open>json.loads\<close> returns: \<open>None\<close>, booleans, integers, strings, lists and
  dictionaries. A dictionary is an association list in insertion order; \<open>json.loads\<close>
  never yields a repeated key, which \<open>dict_inv\<close> records. A string is its UTF-8 bytes, so
  that the lexicographic order on \<open>string\<close> is Python's order on \<open>str\<close> (by code point).
  JSON numbers with a fraction or an exponent (Python floats) are not part of the model.
\<close>

datatype json =
    JNull
  | JBool bool
  | JInt int
  | JStr string
  | JList "json list"
  | JObj "(string \<times> json) list"

text \<open>
  A computation that may raise returns an \<open>option\<close>: \<open>None\<close> is an exception
  (\<open>KeyError\<close>, \<open>TypeError\<close>, \<open>AttributeError\<close> or \<open>IndexError\<close>). The program catches
  none of them, so they all end the run in the same way.
\<close>

text \<open>\<open>bool(v)\<close>, as used by \<open>if v:\<close> and \<open>v or w\<close>.\<close>

fun py_truthy :: "json \<Rightarrow> bool" where
  "py_truthy JNull = False"
| "py_truthy (JBool b) = b"
| "py_truthy (JInt n) = (n \<noteq> 0)"
| "py_truthy (JStr s) = (s \<noteq> [])"
| "py_truthy (JList xs) = (xs \<noteq> [])"
| "py_truthy (JObj kvs) = (kvs \<noteq> [])"

text \<open>
  \<open>a == b\<close>. \<open>bool\<close> is a subclass of \<open>int\<close> (\<open>True == 1\<close>); lists compare element by
  element; dictionaries compare as finite maps, whatever the insertion order.
\<close>

fun py_eq :: "json \<Rightarrow> json \<Rightarrow> bool" where
  "py_eq JNull JNull = True"
| "py_eq (JBool a) (JBool b) = (a = b)"
| "py_eq (JBool a) (JInt n) = ((if a then 1 else 0) = n)"
| "py_eq (JInt n) (JBool b) = (n = (if b then 1 else 0))"
| "py_eq (JInt a) (JInt b) = (a = b)"
| "py_eq (JStr a) (JStr b) = (a = b)"
| "py_eq (JList xs) (JList ys) = list_all2 py_eq xs ys"
| "py_eq (JObj a) (JObj b) =
     (length a = length b \<and>
      (\<forall>kv \<in> set a. case map_of b (fst kv) of None \<Rightarrow> False | Some w \<Rightarrow> py_eq (snd kv) w))"
| "py_eq _ _ = False"

text \<open>The representation invariant of dictionaries: no key occurs twice, at any depth.\<close>

fun dict_inv :: "json \<Rightarrow> bool" where
  "dict_inv (JList xs) = (\<forall>x \<in> set xs. dict_inv x)"
| "dict_inv (JObj kvs) = (distinct (map fst kvs) \<and> (\<forall>kv \<in> set kvs. dict_inv (snd kv)))"
| "dict_inv _ = True"

text \<open>\<open>d[k]\<close>: raises on a missing key, and when \<open>d\<close> is no dictionary.\<close>

fun py_getitem :: "json \<Rightarrow> string \<Rightarrow> json option" where
  "py_getitem (JObj kvs) k = map_of kvs k"
| "py_getitem _ k = None"

text \<open>\<open>d.get(k, dflt)\<close>; \<open>d.get(k)\<close> is \<open>py_get d k JNull\<close>. Only a dictionary has \<open>get\<close>.\<close>

fun py_get :: "json \<Rightarrow> string \<Rightarrow> json \<Rightarrow> json option" where
  "py_get (JObj kvs) k dflt = (case map_of kvs k of None \<Rightarrow> Some dflt | Some v \<Rightarrow> Some v)"
| "py_get _ k dflt = None"

text \<open>The same on a value known to be a dictionary.\<close>

definition dict_get :: "(string \<times> json) list \<Rightarrow> string \<Rightarrow> json \<Rightarrow> json" where
  "dict_get d k dflt = (case map_of d k of None \<Rightarrow> dflt | Some v \<Rightarrow> v)"

text \<open>\<open>d.keys()\<close>. Only a dictionary has \<open>keys\<close>.\<close>

fun py_keys :: "json \<Rightarrow> string list option" where
  "py_keys (JObj kvs) = Some (map fst kvs)"
| "py_keys _ = None"

text \<open>Set difference and intersection of two key views; \<open>sorted\<close> is \<open>sort\<close>.\<close>

definition keys_minus :: "string list \<Rightarrow> string list \<Rightarrow> string list" where
  "keys_minus a b = [k \<leftarrow> a. k \<notin> set b]"

definition keys_inter :: "string list \<Rightarrow> string list \<Rightarrow> string list" where
  "keys_inter a b = [k \<leftarrow> a. k \<in> set b]"

text \<open>\<open>sep.join(parts)\<close>.\<close>

fun py_join :: "string \<Rightarrow> string list \<Rightarrow> string" where
  "py_join sep [] = []"
| "py_join sep [x] = x"
| "py_join sep (x # y # ys) = x @ sep @ py_join sep (y # ys)"

text \<open>\<open>str(n)\<close> for an integer: decimal digits, with a sign.\<close>

fun str_nat :: "nat \<Rightarrow> string" where
  "str_nat n =
     (if n < 10 then [''0123456789'' ! n]
      else str_nat (n div 10) @ [''0123456789'' ! (n mod 10)])"

declare str_nat.simps [simp del]

definition str_int :: "int \<Rightarrow> string" where
  "str_int i = (if i < 0 then ''-'' @ str_nat (nat (- i)) else str_nat (nat i))"

text \<open>
  \<open>repr(s)\<close> for a string: double quotes when the text has a single quote and no double
  quote, single quotes otherwise; the quote and the backslash are escaped, control
  characters are written \<open>\t\<close>, \<open>\n\<close>, \<open>\r\<close> or \<open>\xhh\<close>. Bytes above \<open>0x7f\<close> stand for printable
  characters, which \<open>repr\<close> keeps.
\<close>

definition hex2 :: "char \<Rightarrow> string" where
  "hex2 c = [''0123456789abcdef'' ! (of_char c div 16), ''0123456789abcdef'' ! (of_char c mod 16)]"

definition repr_char :: "char \<Rightarrow> char \<Rightarrow> string" where
  "repr_char quote c =
     (if c = quote \<or> c = CHR 0x5C then [CHR 0x5C, c]
      else if c = CHR 0x09 then [CHR 0x5C, CHR ''t'']
      else if c = CHR 0x0A then [CHR 0x5C, CHR ''n'']
      else if c = CHR 0x0D then [CHR 0x5C, CHR ''r'']
      else if (of_char c :: nat) < 32 \<or> c = CHR 0x7F then [CHR 0x5C, CHR ''x''] @ hex2 c
      else [c])"

definition repr_str :: "string \<Rightarrow> string" where
  "repr_str s =
     (let quote = (if CHR 0x27 \<in> set s \<and> CHR 0x22 \<notin> set s then CHR 0x22 else CHR 0x27)
      in [quote] @ concat (map (repr_char quote) s) @ [quote])"

fun py_repr :: "json \<Rightarrow> string" where
  "py_repr JNull = ''None''"
| "py_repr (JBool b) = (if b then ''True'' else ''False'')"
| "py_repr (JInt n) = str_int n"
| "py_repr (JStr s) = repr_str s"
| "py_repr (JList xs) = ''['' @ py_join '', '' (map py_repr xs) @ '']''"
| "py_repr (JObj kvs) =
     ''{'' @ py_join '', '' (map (\<lambda>kv. repr_str (fst kv) @ '': '' @ py_repr (snd kv)) kvs) @ ''}''"

text \<open>\<open>str(v)\<close>, which is also what an f-string field \<open>{v}\<close> prints.\<close>

fun py_str :: "json \<Rightarrow> string" where
  "py_str (JStr s) = s"
| "py_str v = py_repr v"

text \<open>
  \<open>s.upper()\<close> on the ASCII letters. The code only asks whether the result starts with
  \<open>CURRENT_\<close>, and no character outside ASCII has an upper case that begins with one of
  these eight characters followed by the next one.
\<close>

definition upper_char :: "char \<Rightarrow> char" where
  "upper_char c =
     (if (97::nat) \<le> of_char c \<and> (of_char c :: nat) \<le> 122 then char_of (of_char c - (32::nat)) else c)"

definition py_upper :: "string \<Rightarrow> string" where
  "py_upper s = map upper_char s"

definition startswith :: "string \<Rightarrow> string \<Rightarrow> bool" where
  "startswith s p = (take (length p) s = p)"

section \<open>Operations\<close>

text \<open>
  The class \<open>Operation\<close>. The constructor stores \<open>payload or {}\<close>: a missing or falsy
  payload becomes the empty dictionary.
\<close>

record operation =
  op_type :: string
  table :: string
  column :: "string option"
  payload :: json
  destructive :: bool

definition Operation :: "string \<Rightarrow> string \<Rightarrow> string option \<Rightarrow> json option \<Rightarrow> bool \<Rightarrow> operation" where
  "Operation ot t c p d =
     \<lparr>op_type = ot, table = t, column = c,
      payload = (case p of None \<Rightarrow> JObj [] | Some v \<Rightarrow> if py_truthy v then v else JObj []),
      destructive = d\<rparr>"

section \<open>The column renderer\<close>

text \<open>The double quote, and a name between double quotes.\<close>

definition dq :: string where
  "dq = [CHR 0x22]"

definition quoted :: "string \<Rightarrow> string" where
  "quoted s = dq @ s @ dq"

text \<open>
  The default clause, written three times in the source (lines 81 to 87, 161 to 169 and
  194 to 202): \<open>has_default\<close> is the test
  \<open>"default" in d and d["default"] is not None\<close>, \<open>default_sql\<close> the text chosen for the value.
\<close>

definition has_default :: "(string \<times> json) list \<Rightarrow> bool" where
  "has_default d = (case map_of d ''default'' of None \<Rightarrow> False | Some v \<Rightarrow> v \<noteq> JNull)"

fun default_sql :: "json \<Rightarrow> string" where
  "default_sql (JStr s) =
     (if \<not> startswith (py_upper s) ''CURRENT_'' then [CHR 0x27] @ s @ [CHR 0x27] else s)"
| "default_sql v = py_str v"

text \<open>
  \<open>column_sql\<close>. \<open>col_def["type"]\<close> comes first: it raises unless \<open>col_def\<close> is a
  dictionary with that key, and then every \<open>get\<close> succeeds.
\<close>

fun column_sql :: "string \<Rightarrow> json \<Rightarrow> string \<Rightarrow> string option" where
  "column_sql col_name (JObj d) dialect =
     (case map_of d ''type'' of
        None \<Rightarrow> None
      | Some ty \<Rightarrow>
          (let parts = [quoted col_name, py_str ty];
               parts = (if py_truthy (dict_get d ''primary_key'' JNull)
                        then parts @ [''PRIMARY KEY''] else parts);
               parts = (if dict_get d ''nullable'' JNull = JBool False
                        then parts @ [''NOT NULL''] else parts);
               parts = (if has_default d
                        then parts @ [''DEFAULT '' @ default_sql (dict_get d ''default'' JNull)]
                        else parts);
               parts = (if dialect = ''sqlite'' \<and> py_truthy (dict_get d ''autoincrement'' JNull)
                        then parts @ [''AUTOINCREMENT''] else parts)
           in Some (py_join '' '' parts)))"
| "column_sql col_name _ dialect = None"

section \<open>The loader's checks\<close>

text \<open>
  \<open>load_schema\<close> (lines 57 to 72) returns the parsed document when \<open>tables\<close> is a
  dictionary, every table is a dictionary whose \<open>columns\<close> is a dictionary, and every column
  is a dictionary with a \<open>type\<close>; it raises otherwise.
\<close>

fun column_accepted :: "json \<Rightarrow> bool" where
  "column_accepted (JObj col_def) = (map_of col_def ''type'' \<noteq> None)"
| "column_accepted _ = False"

fun columns_accepted :: "json option \<Rightarrow> bool" where
  "columns_accepted (Some (JObj columns)) = (\<forall>kv \<in> set columns. column_accepted (snd kv))"
| "columns_accepted _ = False"

fun table_accepted :: "json \<Rightarrow> bool" where
  "table_accepted (JObj table_def) = columns_accepted (map_of table_def ''columns'')"
| "table_accepted _ = False"

fun tables_accepted :: "json option \<Rightarrow> bool" where
  "tables_accepted (Some (JObj tables)) = (\<forall>kv \<in> set tables. table_accepted (snd kv))"
| "tables_accepted _ = False"

fun load_schema_accepts :: "json \<Rightarrow> bool" where
  "load_schema_accepts (JObj raw) = tables_accepted (map_of raw ''tables'')"
| "load_schema_accepts _ = False"

text \<open>A well-formed schema: a document the loader accepts, its dictionaries without repeated keys.\<close>

definition well_formed :: "json \<Rightarrow> bool" where
  "well_formed schema = (load_schema_accepts schema \<and> dict_inv schema)"

section \<open>The diff engine\<close>

text \<open>The five loops of \<open>diff_schemas\<close>, each appending to \<open>ops\<close>.\<close>

fun create_tables_loop :: "json \<Rightarrow> string list \<Rightarrow> operation list \<Rightarrow> operation list option" where
  "create_tables_loop tgt_tables [] ops = Some ops"
| "create_tables_loop tgt_tables (t # ts) ops =
     do {
       table_def \<leftarrow> py_getitem tgt_tables t;
       create_tables_loop tgt_tables ts
         (ops @ [Operation ''create_table'' t None (Some table_def) False])
     }"

fun drop_tables_loop :: "string list \<Rightarrow> operation list \<Rightarrow> operation list" where
  "drop_tables_loop [] ops = ops"
| "drop_tables_loop (t # ts) ops =
     drop_tables_loop ts (ops @ [Operation ''drop_table'' t None None True])"

fun add_columns_loop :: "string \<Rightarrow> json \<Rightarrow> string list \<Rightarrow> operation list \<Rightarrow> operation list option" where
  "add_columns_loop t tgt_cols [] ops = Some ops"
| "add_columns_loop t tgt_cols (c # cs) ops =
     do {
       col_def \<leftarrow> py_getitem tgt_cols c;
       add_columns_loop t tgt_cols cs
         (ops @ [Operation ''add_column'' t (Some c) (Some (JObj [(''column_def'', col_def)])) False])
     }"

fun drop_columns_loop :: "string \<Rightarrow> string list \<Rightarrow> operation list \<Rightarrow> operation list" where
  "drop_columns_loop t [] ops = ops"
| "drop_columns_loop t (c # cs) ops =
     drop_columns_loop t cs (ops @ [Operation ''drop_column'' t (Some c) None True])"

text \<open>
  The classification of lines 122 to 126. \<open>and\<close> evaluates \<open>tgt_def.get("nullable")\<close> only
  when \<open>src_def.get("nullable", True)\<close> is truthy; \<open>is False\<close> holds of the value \<open>False\<close> alone.
\<close>

definition alter_destructive :: "json \<Rightarrow> json \<Rightarrow> bool option" where
  "alter_destructive src_def tgt_def =
     do {
       destructive \<leftarrow> Some False;
       src_nullable \<leftarrow> py_get src_def ''nullable'' (JBool True);
       destructive \<leftarrow>
         (if py_truthy src_nullable then
            do {
              tgt_nullable \<leftarrow> py_get tgt_def ''nullable'' JNull;
              Some (if tgt_nullable = JBool False then True else destructive)
            }
          else Some destructive);
       src_type \<leftarrow> py_get src_def ''type'' JNull;
       tgt_type \<leftarrow> py_get tgt_def ''type'' JNull;
       Some (if \<not> py_eq src_type tgt_type then True else destructive)
     }"

fun alter_columns_loop ::
  "string \<Rightarrow> json \<Rightarrow> json \<Rightarrow> string list \<Rightarrow> operation list \<Rightarrow> operation list option"
where
  "alter_columns_loop t src_cols tgt_cols [] ops = Some ops"
| "alter_columns_loop t src_cols tgt_cols (c # cs) ops =
     do {
       src_def \<leftarrow> py_getitem src_cols c;
       tgt_def \<leftarrow> py_getitem tgt_cols c;
       if \<not> py_eq src_def tgt_def then
         do {
           destructive \<leftarrow> alter_destructive src_def tgt_def;
           alter_columns_loop t src_cols tgt_cols cs
             (ops @ [Operation ''alter_column'' t (Some c)
                       (Some (JObj [(''from'', src_def), (''to'', tgt_def)])) destructive])
         }
       else alter_columns_loop t src_cols tgt_cols cs ops
     }"

fun tables_loop :: "json \<Rightarrow> json \<Rightarrow> string list \<Rightarrow> operation list \<Rightarrow> operation list option" where
  "tables_loop src_tables tgt_tables [] ops = Some ops"
| "tables_loop src_tables tgt_tables (t # ts) ops =
     do {
       src_table \<leftarrow> py_getitem src_tables t;
       src_cols \<leftarrow> py_getitem src_table ''columns'';
       tgt_table \<leftarrow> py_getitem tgt_tables t;
       tgt_cols \<leftarrow> py_getitem tgt_table ''columns'';
       tgt_keys \<leftarrow> py_keys tgt_cols;
       src_keys \<leftarrow> py_keys src_cols;
       ops \<leftarrow> add_columns_loop t tgt_cols (sort (keys_minus tgt_keys src_keys)) ops;
       ops \<leftarrow> Some (drop_columns_loop t (sort (keys_minus src_keys tgt_keys)) ops);
       ops \<leftarrow> alter_columns_loop t src_cols tgt_cols (sort (keys_inter src_keys tgt_keys)) ops;
       tables_loop src_tables tgt_tables ts ops
     }"

definition diff_schemas :: "json \<Rightarrow> json \<Rightarrow> operation list option" where
  "diff_schemas source target =
     do {
       src_tables \<leftarrow> py_getitem source ''tables'';
       tgt_tables \<leftarrow> py_getitem target ''tables'';
       tgt_keys \<leftarrow> py_keys tgt_tables;
       src_keys \<leftarrow> py_keys src_tables;
       ops \<leftarrow> create_tables_loop tgt_tables (sort (keys_minus tgt_keys src_keys)) [];
       ops \<leftarrow> Some (drop_tables_loop (sort (keys_minus src_keys tgt_keys)) ops);
       tables_loop src_tables tgt_tables (sort (keys_inter src_keys tgt_keys)) ops
     }"

section \<open>The dialect emitters\<close>

text \<open>\<open>{op.column}\<close> in an f-string: a missing column prints as \<open>None\<close>.\<close>

fun str_column :: "string option \<Rightarrow> string" where
  "str_column None = ''None''"
| "str_column (Some c) = c"

text \<open>
  \<open>sorted(cols)\<close>, each name then looked up with \<open>cols[name]\<close>. A dictionary gives its
  sorted keys; an empty list or string gives nothing to look up; any other value raises,
  in \<open>sorted\<close> or at the first lookup.
\<close>

fun sorted_names :: "json \<Rightarrow> string list option" where
  "sorted_names (JObj kvs) = Some (sort (map fst kvs))"
| "sorted_names (JList []) = Some []"
| "sorted_names (JStr []) = Some []"
| "sorted_names _ = None"

text \<open>The \<open>CREATE TABLE\<close> statement of both dialects (lines 141 to 143 and 211 to 213).\<close>

definition create_table_sql :: "operation \<Rightarrow> string \<Rightarrow> string list option" where
  "create_table_sql op dialect =
     do {
       cols \<leftarrow> py_getitem (payload op) ''columns'';
       names \<leftarrow> sorted_names cols;
       rendered \<leftarrow> those (map (\<lambda>name. do {
                     col_def \<leftarrow> py_getitem cols name;
                     column_sql name col_def dialect
                   }) names);
       Some [''CREATE TABLE '' @ quoted (table op) @ '' ('' @ [CHR 0x0A] @ ''  ''
             @ py_join ('','' @ [CHR 0x0A] @ ''  '') rendered @ [CHR 0x0A] @ '');'']
     }"

text \<open>The \<open>ADD COLUMN\<close> statement of both dialects; \<open>op.column or ""\<close> names the column.\<close>

definition add_column_sql :: "operation \<Rightarrow> string \<Rightarrow> string list option" where
  "add_column_sql op dialect =
     do {
       col_def \<leftarrow> py_getitem (payload op) ''column_def'';
       col \<leftarrow> column_sql (case column op of None \<Rightarrow> [] | Some c \<Rightarrow> c) col_def dialect;
       Some [''ALTER TABLE '' @ quoted (table op) @ '' ADD COLUMN '' @ col @ '';'']
     }"

text \<open>
  The \<open>ALTER COLUMN\<close> statements of Postgres for one definition, \<open>to\<close> on the way up and
  \<open>from\<close> on the way down (lines 153 to 172 and 186 to 205).
\<close>

definition alter_prefix :: "operation \<Rightarrow> string" where
  "alter_prefix op =
     ''ALTER TABLE '' @ quoted (table op) @ '' ALTER COLUMN '' @ quoted (str_column (column op))"

fun alter_lines :: "operation \<Rightarrow> json \<Rightarrow> string list option" where
  "alter_lines op (JObj d) =
     (case map_of d ''type'' of
        None \<Rightarrow> None
      | Some ty \<Rightarrow>
          (let lines = [alter_prefix op @ '' TYPE '' @ py_str ty @ '';''];
               lines = (if py_truthy (dict_get d ''nullable'' (JBool True))
                        then lines @ [alter_prefix op @ '' DROP NOT NULL;'']
                        else lines @ [alter_prefix op @ '' SET NOT NULL;'']);
               lines = (if has_default d
                        then lines @ [alter_prefix op @ '' SET DEFAULT ''
                                      @ default_sql (dict_get d ''default'' JNull) @ '';'']
                        else lines @ [alter_prefix op @ '' DROP DEFAULT;''])
           in Some lines))"
| "alter_lines op _ = None"

definition pg_up_sql :: "operation \<Rightarrow> string list option" where
  "pg_up_sql op =
     (if op_type op = ''create_table'' then create_table_sql op ''postgres''
      else if op_type op = ''drop_table'' then Some [''DROP TABLE '' @ quoted (table op) @ '';'']
      else if op_type op = ''add_column'' then add_column_sql op ''postgres''
      else if op_type op = ''drop_column'' then
        Some [''ALTER TABLE '' @ quoted (table op) @ '' DROP COLUMN ''
              @ quoted (str_column (column op)) @ '';'']
      else if op_type op = ''alter_column'' then
        do { to_def \<leftarrow> py_getitem (payload op) ''to''; alter_lines op to_def }
      else Some [''-- unsupported operation: '' @ op_type op])"

definition pg_down_sql :: "operation \<Rightarrow> string list option" where
  "pg_down_sql op =
     (if op_type op = ''create_table'' then Some [''DROP TABLE '' @ quoted (table op) @ '';'']
      else if op_type op = ''drop_table'' then
        Some [''-- manual rollback required: recreate dropped table '' @ quoted (table op)]
      else if op_type op = ''add_column'' then
        Some [''ALTER TABLE '' @ quoted (table op) @ '' DROP COLUMN ''
              @ quoted (str_column (column op)) @ '';'']
      else if op_type op = ''drop_column'' then
        Some [''-- manual rollback required: re-add dropped column ''
              @ quoted (table op @ ''.'' @ str_column (column op))]
      else if op_type op = ''alter_column'' then
        do { from_def \<leftarrow> py_getitem (payload op) ''from''; alter_lines op from_def }
      else Some [''-- unsupported operation: '' @ op_type op])"

definition sqlite_up_sql :: "operation \<Rightarrow> string list option" where
  "sqlite_up_sql op =
     (if op_type op = ''create_table'' then create_table_sql op ''sqlite''
      else if op_type op = ''drop_table'' then Some [''DROP TABLE '' @ quoted (table op) @ '';'']
      else if op_type op = ''add_column'' then add_column_sql op ''sqlite''
      else if op_type op \<in> {''drop_column'', ''alter_column''} then
        Some [''-- manual action required in sqlite: '' @ op_type op @ '' on ''
              @ quoted (table op @ ''.'' @ str_column (column op))]
      else Some [''-- unsupported operation: '' @ op_type op])"

definition sqlite_down_sql :: "operation \<Rightarrow> string list option" where
  "sqlite_down_sql op =
     (if op_type op = ''create_table'' then Some [''DROP TABLE '' @ quoted (table op) @ '';'']
      else if op_type op = ''drop_table'' then
        Some [''-- manual rollback required: recreate dropped table '' @ quoted (table op)]
      else if op_type op = ''add_column'' then
        Some [''-- manual rollback required in sqlite: drop column ''
              @ quoted (table op @ ''.'' @ str_column (column op))]
      else if op_type op \<in> {''drop_column'', ''alter_column''} then
        Some [''-- manual rollback required in sqlite: '' @ op_type op @ '' on ''
              @ quoted (table op @ ''.'' @ str_column (column op))]
      else Some [''-- unsupported operation: '' @ op_type op])"

section \<open>The report assembler\<close>

text \<open>The loop of \<open>render_sql\<close>, with the two lists it extends.\<close>

fun render_loop ::
  "string \<Rightarrow> operation list \<Rightarrow> string list \<Rightarrow> string list \<Rightarrow> (string list \<times> string list) option"
where
  "render_loop dialect [] up_lines down_lines = Some (up_lines, down_lines)"
| "render_loop dialect (op # ops) up_lines down_lines =
     (if dialect = ''postgres'' then
        do {
          u \<leftarrow> pg_up_sql op;
          d \<leftarrow> pg_down_sql op;
          render_loop dialect ops (up_lines @ u) (down_lines @ d)
        }
      else
        do {
          u \<leftarrow> sqlite_up_sql op;
          d \<leftarrow> sqlite_down_sql op;
          render_loop dialect ops (up_lines @ u) (down_lines @ d)
        })"

definition render_sql :: "operation list \<Rightarrow> string \<Rightarrow> string option" where
  "render_sql ops dialect =
     do {
       (up_lines, down_lines) \<leftarrow> render_loop dialect ops [] [];
       Some (py_join [CHR 0x0A]
               ([''-- Generated by database-migration-generator'', ''-- UP'']
                @ up_lines @ [[], ''-- DOWN''] @ rev down_lines @ [[]]))
     }"

text \<open>
  \<open>dry_run_summary\<close>. \<open>by_type\<close> is a dictionary of counts; \<open>by_type[key]\<close> for a key of
  \<open>by_type\<close> reads the count that \<open>by_type.get(key, 0)\<close> reads.
\<close>

definition dict_count :: "(string \<times> nat) list \<Rightarrow> string \<Rightarrow> nat" where
  "dict_count by_type k = (case map_of by_type k of None \<Rightarrow> 0 | Some n \<Rightarrow> n)"

fun count_loop :: "operation list \<Rightarrow> (string \<times> nat) list \<Rightarrow> nat \<Rightarrow> (string \<times> nat) list \<times> nat" where
  "count_loop [] by_type n = (by_type, n)"
| "count_loop (op # ops) by_type n =
     count_loop ops
       (AList.update (op_type op) (dict_count by_type (op_type op) + 1) by_type)
       (if destructive op then n + 1 else n)"

definition dry_run_summary :: "operation list \<Rightarrow> string" where
  "dry_run_summary ops =
     (let lines = [''Dry-run summary:'', ''  total_operations: '' @ str_nat (length ops)];
          (by_type, n) = count_loop ops [] 0;
          lines = lines @ map (\<lambda>key. ''  '' @ key @ '': '' @ str_nat (dict_count by_type key))
                            (sort (map fst by_type));
          lines = lines @ [''  destructive_operations: '' @ str_nat n]
      in py_join [CHR 0x0A] lines)"

section \<open>The driver\<close>

text \<open>
  What \<open>main\<close> does with two loaded schemas (lines 284 to 297): it diffs them, stops with
  exit code 2 and the list of destructive operations unless they are allowed, and otherwise
  produces the dry-run summary or the rendered SQL.
\<close>

datatype outcome = Refused "operation list" | Output string

definition main_core :: "json \<Rightarrow> json \<Rightarrow> string \<Rightarrow> bool \<Rightarrow> bool \<Rightarrow> outcome option" where
  "main_core source target dialect dry_run allow_destructive =
     do {
       operations \<leftarrow> diff_schemas source target;
       let destructive_ops = filter destructive operations in
       if destructive_ops \<noteq> [] \<and> \<not> allow_destructive then Some (Refused destructive_ops)
       else if dry_run then Some (Output (dry_run_summary operations))
       else do { output \<leftarrow> render_sql operations dialect; Some (Output output) }
     }"

section \<open>The diff as the specification describes it\<close>

text \<open>The dictionary behind a value, and the tables and columns of a well-formed schema.\<close>

fun the_dict :: "json \<Rightarrow> (string \<times> json) list" where
  "the_dict (JObj kvs) = kvs"
| "the_dict _ = []"

definition tables_of :: "json \<Rightarrow> (string \<times> json) list" where
  "tables_of schema = the_dict (dict_get (the_dict schema) ''tables'' JNull)"

definition columns_of :: "json \<Rightarrow> (string \<times> json) list" where
  "columns_of table_def = the_dict (dict_get (the_dict table_def) ''columns'' JNull)"

text \<open>
  The classification of an altered column in the specification's words: the nullability
  tightens from nullable or unspecified to explicitly non-nullable, or the declared type
  changes.
\<close>

definition nullable_or_unspecified :: "json \<Rightarrow> bool" where
  "nullable_or_unspecified col_def =
     (case map_of (the_dict col_def) ''nullable'' of None \<Rightarrow> True | Some v \<Rightarrow> py_truthy v)"

definition explicitly_not_nullable :: "json \<Rightarrow> bool" where
  "explicitly_not_nullable col_def = (map_of (the_dict col_def) ''nullable'' = Some (JBool False))"

definition type_changes :: "json \<Rightarrow> json \<Rightarrow> bool" where
  "type_changes src_def tgt_def =
     (\<not> py_eq (dict_get (the_dict src_def) ''type'' JNull) (dict_get (the_dict tgt_def) ''type'' JNull))"

definition alter_is_destructive :: "json \<Rightarrow> json \<Rightarrow> bool" where
  "alter_is_destructive src_def tgt_def =
     ((nullable_or_unspecified src_def \<and> explicitly_not_nullable tgt_def)
      \<or> type_changes src_def tgt_def)"

text \<open>The five kinds of operation, as the data model lists them.\<close>

definition create_table_op :: "string \<Rightarrow> json \<Rightarrow> operation" where
  "create_table_op t table_def =
     \<lparr>op_type = ''create_table'', table = t, column = None, payload = table_def,
      destructive = False\<rparr>"

definition drop_table_op :: "string \<Rightarrow> operation" where
  "drop_table_op t =
     \<lparr>op_type = ''drop_table'', table = t, column = None, payload = JObj [],
      destructive = True\<rparr>"

definition add_column_op :: "string \<Rightarrow> string \<Rightarrow> json \<Rightarrow> operation" where
  "add_column_op t c col_def =
     \<lparr>op_type = ''add_column'', table = t, column = Some c,
      payload = JObj [(''column_def'', col_def)], destructive = False\<rparr>"

definition drop_column_op :: "string \<Rightarrow> string \<Rightarrow> operation" where
  "drop_column_op t c =
     \<lparr>op_type = ''drop_column'', table = t, column = Some c, payload = JObj [],
      destructive = True\<rparr>"

definition alter_column_op :: "string \<Rightarrow> string \<Rightarrow> json \<Rightarrow> json \<Rightarrow> operation" where
  "alter_column_op t c src_def tgt_def =
     \<lparr>op_type = ''alter_column'', table = t, column = Some c,
      payload = JObj [(''from'', src_def), (''to'', tgt_def)],
      destructive = alter_is_destructive src_def tgt_def\<rparr>"

text \<open>
  Step 3 of the algorithm for one table present in both schemas: added columns, dropped
  columns, altered columns, each in sorted column-name order.
\<close>

definition table_block :: "string \<Rightarrow> (string \<times> json) list \<Rightarrow> (string \<times> json) list \<Rightarrow> operation list" where
  "table_block t src_cols tgt_cols =
     map (\<lambda>c. add_column_op t c (dict_get tgt_cols c JNull))
         (sort (keys_minus (map fst tgt_cols) (map fst src_cols)))
     @ map (drop_column_op t) (sort (keys_minus (map fst src_cols) (map fst tgt_cols)))
     @ map (\<lambda>c. alter_column_op t c (dict_get src_cols c JNull) (dict_get tgt_cols c JNull))
         (filter (\<lambda>c. \<not> py_eq (dict_get src_cols c JNull) (dict_get tgt_cols c JNull))
                 (sort (keys_inter (map fst src_cols) (map fst tgt_cols))))"

text \<open>
  Steps 1 to 3: the created tables, the dropped tables, then one block for each table of
  both schemas, all in sorted table-name order.
\<close>

definition diff_spec :: "json \<Rightarrow> json \<Rightarrow> operation list" where
  "diff_spec source target =
     map (\<lambda>t. create_table_op t (dict_get (tables_of target) t JNull))
         (sort (keys_minus (map fst (tables_of target)) (map fst (tables_of source))))
     @ map drop_table_op
         (sort (keys_minus (map fst (tables_of source)) (map fst (tables_of target))))
     @ concat (map (\<lambda>t. table_block t (columns_of (dict_get (tables_of source) t JNull))
                                      (columns_of (dict_get (tables_of target) t JNull)))
                   (sort (keys_inter (map fst (tables_of source)) (map fst (tables_of target)))))"

section \<open>Example schemas\<close>

text \<open>
  Two schemas for the concrete checks below. From the first to the second, table \<open>posts\<close>
  is created, table \<open>old\<close> is dropped, and in \<open>users\<close> the column \<open>name\<close> is added, \<open>id\<close> is
  dropped and \<open>email\<close> becomes non-nullable with a default.
\<close>

definition example_source :: json where
  "example_source =
     JObj [(''tables'', JObj
       [(''users'', JObj [(''columns'', JObj
           [(''email'', JObj [(''type'', JStr ''TEXT'')]),
            (''id'', JObj [(''type'', JStr ''INTEGER''), (''primary_key'', JBool True)])])]),
        (''old'', JObj [(''columns'', JObj [])])])]"

definition example_target :: json where
  "example_target =
     JObj [(''tables'', JObj
       [(''users'', JObj [(''columns'', JObj
           [(''email'', JObj [(''type'', JStr ''TEXT''), (''nullable'', JBool False),
                             (''default'', JStr ''x'')]),
            (''name'', JObj [(''type'', JStr ''TEXT'')])])]),
        (''posts'', JObj [(''columns'', JObj
           [(''title'', JObj [(''type'', JStr ''TEXT''), (''nullable'', JBool False)]),
            (''id'', JObj [(''type'', JStr ''INTEGER''), (''primary_key'', JBool True)])])])])]"

text \<open>
  The first schema again, with the columns of \<open>users\<close> and the attributes of \<open>id\<close> in another
  insertion order, a new table \<open>tags\<close>, and without table \<open>old\<close>.
\<close>

definition example_reordered :: json where
  "example_reordered =
     JObj [(''tables'', JObj
       [(''tags'', JObj [(''columns'', JObj [(''label'', JObj [(''type'', JStr ''TEXT'')])])]),
        (''users'', JObj [(''columns'', JObj
           [(''id'', JObj [(''primary_key'', JBool True), (''type'', JStr ''INTEGER'')]),
            (''email'', JObj [(''type'', JStr ''TEXT'')])])])])]"

text \<open>The first schema with one more table, \<open>tags\<close>, and one more column, \<open>users.name\<close>.\<close>

definition example_additive :: json where
  "example_additive =
     JObj [(''tables'', JObj
       [(''users'', JObj [(''columns'', JObj
           [(''email'', JObj [(''type'', JStr ''TEXT'')]),
            (''id'', JObj [(''type'', JStr ''INTEGER''), (''primary_key'', JBool True)]),
            (''name'', JObj [(''type'', JStr ''TEXT''), (''default'', JStr ''anonymous'')])])]),
        (''old'', JObj [(''columns'', JObj [])]),
        (''tags'', JObj [(''columns'', JObj [(''label'', JObj [(''type'', JStr ''TEXT'')])])])])]"

section \<open>The renderers as the specification describes them\<close>

text \<open>
  The \<open>DEFAULT\<close> part of a column fragment: nothing without a default or with a null one;
  a string that does not begin with \<open>CURRENT_\<close> (in any letter case) between single
  quotes; any other value as \<open>str\<close> prints it.
\<close>

fun default_clause :: "json option \<Rightarrow> string list" where
  "default_clause None = []"
| "default_clause (Some JNull) = []"
| "default_clause (Some (JStr s)) =
     [''DEFAULT '' @ (if startswith (py_upper s) ''CURRENT_'' then s else [CHR 0x27] @ s @ [CHR 0x27])]"
| "default_clause (Some v) = [''DEFAULT '' @ py_str v]"

text \<open>The parts of a column fragment, in order.\<close>

definition column_parts :: "string \<Rightarrow> (string \<times> json) list \<Rightarrow> json \<Rightarrow> string \<Rightarrow> string list" where
  "column_parts col_name d ty dialect =
     [quoted col_name, py_str ty]
     @ (if py_truthy (dict_get d ''primary_key'' JNull) then [''PRIMARY KEY''] else [])
     @ (if map_of d ''nullable'' = Some (JBool False) then [''NOT NULL''] else [])
     @ default_clause (map_of d ''default'')
     @ (if dialect = ''sqlite'' \<and> py_truthy (dict_get d ''autoincrement'' JNull)
        then [''AUTOINCREMENT''] else [])"

text \<open>The two entry points of the emitter that \<open>render_sql\<close> selects for a dialect.\<close>

definition emit_up :: "string \<Rightarrow> operation \<Rightarrow> string list option" where
  "emit_up dialect op = (if dialect = ''postgres'' then pg_up_sql op else sqlite_up_sql op)"

definition emit_down :: "string \<Rightarrow> operation \<Rightarrow> string list option" where
  "emit_down dialect op = (if dialect = ''postgres'' then pg_down_sql op else sqlite_down_sql op)"

text \<open>
  The migration document: the header, the up statements in operation order, the separator,
  then the down blocks of the operations from the last operation to the first. \<open>within\<close> is
  the order given to the statements of one down block.
\<close>

definition document :: "(string list \<Rightarrow> string list) \<Rightarrow> operation list \<Rightarrow> string \<Rightarrow> string option" where
  "document within ops dialect =
     do {
       ups \<leftarrow> those (map (emit_up dialect) ops);
       downs \<leftarrow> those (map (emit_down dialect) ops);
       Some (py_join [CHR 0x0A]
               ([''-- Generated by database-migration-generator'', ''-- UP'']
                @ concat ups @ [[], ''-- DOWN''] @ concat (map within (rev downs)) @ [[]]))
     }"

text \<open>The five operation kinds the emitters know.\<close>

definition known_kinds :: "string set" where
  "known_kinds = {''create_table'', ''drop_table'', ''add_column'', ''drop_column'', ''alter_column''}"

text \<open>
  The dry-run summary: the total, one line per kind in sorted order of the kinds with the
  number of operations of that kind, and the number of destructive operations.
\<close>

definition summary_spec :: "operation list \<Rightarrow> string" where
  "summary_spec ops =
     py_join [CHR 0x0A]
       ([''Dry-run summary:'', ''  total_operations: '' @ str_nat (length ops)]
        @ map (\<lambda>kind. ''  '' @ kind @ '': ''
                       @ str_nat (length (filter (\<lambda>op. op_type op = kind) ops)))
              (sort (remdups (map op_type ops)))
        @ [''  destructive_operations: '' @ str_nat (length (filter destructive ops))])"

text \<open>Example operations and an example column.\<close>

definition example_alter :: operation where
  "example_alter =
     alter_column_op ''users'' ''email'' (JObj [(''type'', JStr ''TEXT'')])
       (JObj [(''type'', JStr ''TEXT''), (''nullable'', JBool False), (''default'', JStr ''x'')])"

definition example_rename :: operation where
  "example_rename =
     \<lparr>op_type = ''rename_table'', table = ''users'', column = None, payload = JObj [],
      destructive = False\<rparr>"

definition example_column :: "(string \<times> json) list" where
  "example_column =
     [(''type'', JStr ''INTEGER''), (''primary_key'', JBool True), (''nullable'', JBool False),
      (''default'', JInt 0), (''autoincrement'', JBool True)]"

section \<open>The loops of the diff engine in closed form\<close>

lemma map_of_in_keys: "k \<in> fst ` set d \<Longrightarrow> \<exists>v. map_of d k = Some v \<and> (k, v) \<in> set d"
  by (metis domD dom_map_of_conv_image_fst map_of_SomeD)

lemma drop_tables_loop_closed: "drop_tables_loop ts ops = ops @ map drop_table_op ts"
  by (induction ts arbitrary: ops) (simp_all add: Operation_def drop_table_op_def)

lemma drop_columns_loop_closed: "drop_columns_loop t cs ops = ops @ map (drop_column_op t) cs"
  by (induction cs arbitrary: ops) (simp_all add: Operation_def drop_column_op_def)

lemma create_tables_loop_closed:
  "\<forall>t \<in> set ts. \<exists>v. map_of T t = Some v \<and> py_truthy v \<Longrightarrow>
   create_tables_loop (JObj T) ts ops = Some (ops @ map (\<lambda>t. create_table_op t (dict_get T t JNull)) ts)"
  by (induction ts arbitrary: ops) (auto simp: Operation_def create_table_op_def dict_get_def)

lemma add_columns_loop_closed:
  "set cs \<subseteq> fst ` set C \<Longrightarrow>
   add_columns_loop t (JObj C) cs ops = Some (ops @ map (\<lambda>c. add_column_op t c (dict_get C c JNull)) cs)"
proof (induction cs arbitrary: ops)
  case Nil
  then show ?case by simp
next
  case (Cons c cs)
  then obtain v where "map_of C c = Some v"
    using map_of_in_keys [of c C] by auto
  with Cons show ?case
    by (simp add: Operation_def add_column_op_def dict_get_def)
qed

lemma alter_destructive_closed:
  "alter_destructive (JObj sd) (JObj td) = Some (alter_is_destructive (JObj sd) (JObj td))"
  by (auto simp: alter_destructive_def alter_is_destructive_def nullable_or_unspecified_def
      explicitly_not_nullable_def type_changes_def dict_get_def split: option.splits)

lemma alter_columns_loop_closed:
  "\<forall>c \<in> set cs. (\<exists>sd. map_of S c = Some (JObj sd)) \<and> (\<exists>td. map_of T c = Some (JObj td)) \<Longrightarrow>
   alter_columns_loop t (JObj S) (JObj T) cs ops =
     Some (ops @ map (\<lambda>c. alter_column_op t c (dict_get S c JNull) (dict_get T c JNull))
                  (filter (\<lambda>c. \<not> py_eq (dict_get S c JNull) (dict_get T c JNull)) cs))"
proof (induction cs arbitrary: ops)
  case Nil
  then show ?case by simp
next
  case (Cons c cs)
  then obtain sd td where "map_of S c = Some (JObj sd)" "map_of T c = Some (JObj td)"
    by auto
  with Cons show ?case
    by (simp add: Operation_def alter_column_op_def dict_get_def alter_destructive_closed)
qed


lemma column_acceptedE: "column_accepted cd \<Longrightarrow> \<exists>d ty. cd = JObj d \<and> map_of d ''type'' = Some ty"
  by (cases cd) auto

lemma columns_acceptedE:
  "columns_accepted x \<Longrightarrow> \<exists>cols. x = Some (JObj cols) \<and> (\<forall>kv \<in> set cols. column_accepted (snd kv))"
  by (cases x rule: columns_accepted.cases) auto

lemma table_acceptedE:
  "table_accepted td \<Longrightarrow>
   \<exists>d. td = JObj d \<and> map_of d ''columns'' = Some (JObj (columns_of td)) \<and> py_truthy td
        \<and> (\<forall>kv \<in> set (columns_of td). column_accepted (snd kv))"
  by (cases td) (auto simp: columns_of_def dict_get_def dest!: columns_acceptedE)

lemma tables_acceptedE:
  "tables_accepted x \<Longrightarrow> \<exists>tables. x = Some (JObj tables) \<and> (\<forall>kv \<in> set tables. table_accepted (snd kv))"
  by (cases x rule: tables_accepted.cases) auto

lemma load_schema_acceptsE:
  "load_schema_accepts A \<Longrightarrow>
   \<exists>raw. A = JObj raw \<and> map_of raw ''tables'' = Some (JObj (tables_of A))
         \<and> (\<forall>kv \<in> set (tables_of A). table_accepted (snd kv))"
  by (cases A) (auto simp: tables_of_def dict_get_def dest!: tables_acceptedE)

lemma accepted_lookup:
  "\<forall>kv \<in> set d. P (snd kv) \<Longrightarrow> k \<in> fst ` set d \<Longrightarrow> \<exists>v. map_of d k = Some v \<and> P v"
  using map_of_in_keys [of k d] by fastforce

lemma set_keys_minus [simp]: "set (keys_minus a b) = set a - set b"
  by (auto simp: keys_minus_def)

lemma set_keys_inter [simp]: "set (keys_inter a b) = set a \<inter> set b"
  by (auto simp: keys_inter_def)

lemma add_step:
  "add_columns_loop t (JObj T) (sort (keys_minus (map fst T) (map fst S))) ops =
     Some (ops @ map (\<lambda>c. add_column_op t c (dict_get T c JNull))
                     (sort (keys_minus (map fst T) (map fst S))))"
  by (rule add_columns_loop_closed) auto

lemma alter_step:
  assumes S: "\<forall>kv \<in> set S. column_accepted (snd kv)"
    and T: "\<forall>kv \<in> set T. column_accepted (snd kv)"
  shows "alter_columns_loop t (JObj S) (JObj T) (sort (keys_inter (map fst S) (map fst T))) ops =
     Some (ops @ map (\<lambda>c. alter_column_op t c (dict_get S c JNull) (dict_get T c JNull))
                  (filter (\<lambda>c. \<not> py_eq (dict_get S c JNull) (dict_get T c JNull))
                          (sort (keys_inter (map fst S) (map fst T)))))"
proof (rule alter_columns_loop_closed, rule ballI)
  fix c assume "c \<in> set (sort (keys_inter (map fst S) (map fst T)))"
  then have "c \<in> fst ` set S" "c \<in> fst ` set T" by auto
  then show "(\<exists>sd. map_of S c = Some (JObj sd)) \<and> (\<exists>td. map_of T c = Some (JObj td))"
    using accepted_lookup [OF S, of c] accepted_lookup [OF T, of c]
    by (auto dest!: column_acceptedE)
qed

lemma tables_loop_closed:
  assumes S: "\<forall>kv \<in> set S. table_accepted (snd kv)"
    and T: "\<forall>kv \<in> set T. table_accepted (snd kv)"
  shows "set ts \<subseteq> fst ` set S \<inter> fst ` set T \<Longrightarrow>
    tables_loop (JObj S) (JObj T) ts ops =
      Some (ops @ concat (map (\<lambda>t. table_block t (columns_of (dict_get S t JNull))
                                                 (columns_of (dict_get T t JNull))) ts))"
proof (induction ts arbitrary: ops)
  case Nil
  then show ?case by simp
next
  case (Cons t ts)
  from Cons.prems obtain sv tv where sv: "map_of S t = Some sv" "table_accepted sv"
    and tv: "map_of T t = Some tv" "table_accepted tv"
    using accepted_lookup [OF S, of t] accepted_lookup [OF T, of t] by auto
  from table_acceptedE [OF sv(2)] obtain sd where sd: "sv = JObj sd"
    "map_of sd ''columns'' = Some (JObj (columns_of sv))"
    "\<forall>kv \<in> set (columns_of sv). column_accepted (snd kv)" by blast
  from table_acceptedE [OF tv(2)] obtain td where td: "tv = JObj td"
    "map_of td ''columns'' = Some (JObj (columns_of tv))"
    "\<forall>kv \<in> set (columns_of tv). column_accepted (snd kv)" by blast
  have rest: "set ts \<subseteq> fst ` set S \<inter> fst ` set T" using Cons.prems by simp
  have sv': "dict_get S t JNull = sv" and tv': "dict_get T t JNull = tv"
    using sv tv by (simp_all add: dict_get_def)
  have get: "py_getitem sv ''columns'' = Some (JObj (columns_of sv))"
    "py_getitem tv ''columns'' = Some (JObj (columns_of tv))"
    using sd(2) td(2) unfolding sd(1) td(1) by simp_all
  show ?case
    by (simp add: sv(1) tv(1) get add_step alter_step [OF sd(3) td(3)] drop_columns_loop_closed
        Cons.IH [OF rest] sv' tv' table_block_def)
qed

lemma diff_schemas_closed:
  assumes "load_schema_accepts A" "load_schema_accepts B"
  shows "diff_schemas A B = Some (diff_spec A B)"
proof -
  from load_schema_acceptsE [OF assms(1)] obtain ra where A: "A = JObj ra"
    "map_of ra ''tables'' = Some (JObj (tables_of A))"
    "\<forall>kv \<in> set (tables_of A). table_accepted (snd kv)" by blast
  from load_schema_acceptsE [OF assms(2)] obtain rb where B: "B = JObj rb"
    "map_of rb ''tables'' = Some (JObj (tables_of B))"
    "\<forall>kv \<in> set (tables_of B). table_accepted (snd kv)" by blast
  have get: "py_getitem A ''tables'' = Some (JObj (tables_of A))"
    "py_getitem B ''tables'' = Some (JObj (tables_of B))"
    using A(2) B(2) unfolding A(1) B(1) by simp_all
  have "\<forall>t \<in> set (sort (keys_minus (map fst (tables_of B)) (map fst (tables_of A)))).
          \<exists>v. map_of (tables_of B) t = Some v \<and> py_truthy v"
  proof
    fix t assume "t \<in> set (sort (keys_minus (map fst (tables_of B)) (map fst (tables_of A))))"
    then have "t \<in> fst ` set (tables_of B)" by auto
    from accepted_lookup [OF B(3) this] show "\<exists>v. map_of (tables_of B) t = Some v \<and> py_truthy v"
      by (auto dest!: table_acceptedE)
  qed
  note cr = create_tables_loop_closed [OF this, of "[]"]
  have tl: "\<And>ops. tables_loop (JObj (tables_of A)) (JObj (tables_of B))
        (sort (keys_inter (map fst (tables_of A)) (map fst (tables_of B)))) ops =
      Some (ops @ concat (map (\<lambda>t. table_block t (columns_of (dict_get (tables_of A) t JNull))
                                                 (columns_of (dict_get (tables_of B) t JNull)))
                   (sort (keys_inter (map fst (tables_of A)) (map fst (tables_of B))))))"
    by (rule tables_loop_closed [OF A(3) B(3)]) auto
  show ?thesis
    by (simp add: diff_schemas_def diff_spec_def get cr tl drop_tables_loop_closed)
qed

section \<open>Properties of the diff engine\<close>

text \<open>
  Claim C2. On well-formed schemas \<open>diff_schemas\<close> returns the operations in the fixed order
  of \<open>diff_spec\<close>: the \<open>create_table\<close> operations in sorted table-name order, then the
  \<open>drop_table\<close> operations in sorted table-name order, then, for each table of both schemas
  in sorted table-name order, a block of \<open>add_column\<close>, then \<open>drop_column\<close>, then
  \<open>alter_column\<close> operations, each in sorted column-name order.
\<close>

theorem diff_order:
  "well_formed source \<Longrightarrow> well_formed target \<Longrightarrow>
   diff_schemas source target = Some (diff_spec source target)"
  by (simp add: well_formed_def diff_schemas_closed)

theorem diff_order_witness:
  "well_formed example_source \<and> well_formed example_target \<and>
   diff_schemas example_source example_target =
     Some [create_table_op ''posts'' (JObj [(''columns'', JObj
             [(''title'', JObj [(''type'', JStr ''TEXT''), (''nullable'', JBool False)]),
              (''id'', JObj [(''type'', JStr ''INTEGER''), (''primary_key'', JBool True)])])]),
           drop_table_op ''old'',
           add_column_op ''users'' ''name'' (JObj [(''type'', JStr ''TEXT'')]),
           drop_column_op ''users'' ''id'',
           alter_column_op ''users'' ''email'' (JObj [(''type'', JStr ''TEXT'')])
             (JObj [(''type'', JStr ''TEXT''), (''nullable'', JBool False), (''default'', JStr ''x'')])]"
proof -
  have s: "well_formed example_source" by code_simp
  have t: "well_formed example_target" by code_simp
  have "diff_spec example_source example_target =
     [create_table_op ''posts'' (JObj [(''columns'', JObj
             [(''title'', JObj [(''type'', JStr ''TEXT''), (''nullable'', JBool False)]),
              (''id'', JObj [(''type'', JStr ''INTEGER''), (''primary_key'', JBool True)])])]),
           drop_table_op ''old'',
           add_column_op ''users'' ''name'' (JObj [(''type'', JStr ''TEXT'')]),
           drop_column_op ''users'' ''id'',
           alter_column_op ''users'' ''email'' (JObj [(''type'', JStr ''TEXT'')])
             (JObj [(''type'', JStr ''TEXT''), (''nullable'', JBool False), (''default'', JStr ''x'')])]"
    by code_simp
  with diff_order [OF s t] s t show ?thesis by simp
qed

subsection \<open>The shape of the operations, and unchanged tables\<close>

lemma dict_get_in_keys:
  "k \<in> fst ` set d \<Longrightarrow> map_of d k = Some (dict_get d k JNull)"
  using map_of_in_keys [of k d] by (auto simp: dict_get_def)

lemma table_block_shape:
  assumes "op \<in> set (table_block t S T)"
  shows "(\<exists>c d. op = add_column_op t c d \<and> map_of T c = Some d \<and> c \<notin> fst ` set S)
       \<or> (\<exists>c. op = drop_column_op t c \<and> c \<in> fst ` set S \<and> c \<notin> fst ` set T)
       \<or> (\<exists>c sd td. op = alter_column_op t c sd td \<and> map_of S c = Some sd
              \<and> map_of T c = Some td \<and> \<not> py_eq sd td)"
proof -
  from assms consider
      (add) c where "c \<in> fst ` set T" "c \<notin> fst ` set S"
        "op = add_column_op t c (dict_get T c JNull)"
    | (drop) c where "c \<in> fst ` set S" "c \<notin> fst ` set T" "op = drop_column_op t c"
    | (alter) c where "c \<in> fst ` set S" "c \<in> fst ` set T"
        "\<not> py_eq (dict_get S c JNull) (dict_get T c JNull)"
        "op = alter_column_op t c (dict_get S c JNull) (dict_get T c JNull)"
    unfolding table_block_def by auto
  then show ?thesis
  proof cases
    case add
    from dict_get_in_keys [OF add(1)] add(2,3) show ?thesis by blast
  next
    case drop
    then show ?thesis by blast
  next
    case alter
    from dict_get_in_keys [OF alter(1)] dict_get_in_keys [OF alter(2)] alter(3,4)
    show ?thesis by blast
  qed
qed

lemma diff_spec_shape:
  assumes "op \<in> set (diff_spec A B)"
  shows "(\<exists>t d. op = create_table_op t d \<and> map_of (tables_of B) t = Some d
              \<and> t \<notin> fst ` set (tables_of A))
       \<or> (\<exists>t. op = drop_table_op t \<and> t \<in> fst ` set (tables_of A) \<and> t \<notin> fst ` set (tables_of B))
       \<or> (\<exists>t ta tb. map_of (tables_of A) t = Some ta \<and> map_of (tables_of B) t = Some tb
              \<and> op \<in> set (table_block t (columns_of ta) (columns_of tb)))"
proof -
  from assms consider
      (create) t where "t \<in> fst ` set (tables_of B)" "t \<notin> fst ` set (tables_of A)"
        "op = create_table_op t (dict_get (tables_of B) t JNull)"
    | (drop) t where "t \<in> fst ` set (tables_of A)" "t \<notin> fst ` set (tables_of B)"
        "op = drop_table_op t"
    | (block) t where "t \<in> fst ` set (tables_of A)" "t \<in> fst ` set (tables_of B)"
        "op \<in> set (table_block t (columns_of (dict_get (tables_of A) t JNull))
                                  (columns_of (dict_get (tables_of B) t JNull)))"
    unfolding diff_spec_def by auto
  then show ?thesis
  proof cases
    case create
    from dict_get_in_keys [OF create(1)] create(2,3) show ?thesis by blast
  next
    case drop
    then show ?thesis by blast
  next
    case block
    from dict_get_in_keys [OF block(1)] dict_get_in_keys [OF block(2)] block(3)
    show ?thesis by blast
  qed
qed

text \<open>\<open>==\<close> is reflexive on values whose dictionaries have no repeated key.\<close>

lemma py_eq_refl: "dict_inv x \<Longrightarrow> py_eq x x"
proof (induction x)
  case (JList xs)
  then show ?case by (simp add: list_all2_same)
next
  case (JObj kvs)
  have "\<And>kv. kv \<in> set kvs \<Longrightarrow> map_of kvs (fst kv) = Some (snd kv) \<and> py_eq (snd kv) (snd kv)"
  proof -
    fix kv assume kv: "kv \<in> set kvs"
    obtain k v where [simp]: "kv = (k, v)" by (cases kv)
    from JObj.prems kv have "map_of kvs k = Some v" by simp
    moreover have "py_eq v v"
      using JObj.IH [of kv v] JObj.prems kv by auto
    ultimately show "map_of kvs (fst kv) = Some (snd kv) \<and> py_eq (snd kv) (snd kv)" by simp
  qed
  then show ?case by simp
qed simp_all

lemma dict_inv_lookup: "dict_inv (JObj d) \<Longrightarrow> map_of d k = Some v \<Longrightarrow> dict_inv v"
  by (auto dest: map_of_SomeD)

lemma keys_minus_self [simp]: "keys_minus a a = []"
  by (simp add: keys_minus_def)

lemma keys_minus_empty: "set a \<subseteq> set b \<Longrightarrow> keys_minus a b = []"
  by (auto simp: keys_minus_def filter_empty_conv)

lemma py_eq_dict_get:
  assumes "py_eq (JObj S) (JObj T)" "map_of S c = Some v"
  shows "py_eq (dict_get S c JNull) (dict_get T c JNull)"
proof -
  from assms(2) have "(c, v) \<in> set S" by (rule map_of_SomeD)
  moreover from assms(1)
  have "\<forall>kv \<in> set S. case map_of T (fst kv) of None \<Rightarrow> False | Some w \<Rightarrow> py_eq (snd kv) w"
    by simp
  ultimately have "case map_of T (fst (c, v)) of None \<Rightarrow> False | Some w \<Rightarrow> py_eq (snd (c, v)) w"
    by blast
  with assms(2) show ?thesis
    by (auto simp: dict_get_def split: option.splits)
qed

lemma py_eq_keys:
  assumes "py_eq (JObj S) (JObj T)" "distinct (map fst S)" "distinct (map fst T)"
  shows "set (map fst S) = set (map fst T)"
proof -
  have sub: "set (map fst S) \<subseteq> set (map fst T)"
  proof
    fix k assume "k \<in> set (map fst S)"
    then obtain v where "(k, v) \<in> set S" by auto
    moreover from assms(1)
    have "\<forall>kv \<in> set S. case map_of T (fst kv) of None \<Rightarrow> False | Some w \<Rightarrow> py_eq (snd kv) w"
      by simp
    ultimately have "case map_of T (fst (k, v)) of None \<Rightarrow> False | Some w \<Rightarrow> py_eq (snd (k, v)) w"
      by blast
    then have "map_of T k \<noteq> None" by (auto split: option.splits)
    then show "k \<in> set (map fst T)"
      by (simp add: map_of_eq_None_iff)
  qed
  have "card (set (map fst S)) = length (map fst S)"
    using assms(2) by (rule distinct_card)
  moreover have "card (set (map fst T)) = length (map fst T)"
    using assms(3) by (rule distinct_card)
  moreover have "length S = length T" using assms(1) by simp
  ultimately have "card (set (map fst S)) = card (set (map fst T))" by simp
  with sub show ?thesis
    by (simp add: card_subset_eq)
qed

lemma table_block_equal:
  assumes "py_eq (JObj S) (JObj T)" "distinct (map fst S)" "distinct (map fst T)"
  shows "table_block t S T = []"
proof -
  from py_eq_keys [OF assms] have keys: "set (map fst S) = set (map fst T)" .
  have "\<forall>c \<in> set (keys_inter (map fst S) (map fst T)).
          py_eq (dict_get S c JNull) (dict_get T c JNull)"
  proof
    fix c assume "c \<in> set (keys_inter (map fst S) (map fst T))"
    then have "c \<in> fst ` set S" by simp
    from dict_get_in_keys [OF this] show "py_eq (dict_get S c JNull) (dict_get T c JNull)"
      by (rule py_eq_dict_get [OF assms(1)])
  qed
  then show ?thesis
    using keys by (simp add: table_block_def keys_minus_empty filter_empty_conv)
qed

lemma well_formed_tables:
  assumes "well_formed A"
  shows "distinct (map fst (tables_of A))"
    and "\<forall>kv \<in> set (tables_of A). table_accepted (snd kv) \<and> dict_inv (snd kv)"
proof -
  from assms have acc: "load_schema_accepts A" and inv: "dict_inv A"
    by (simp_all add: well_formed_def)
  from load_schema_acceptsE [OF acc] obtain ra where A: "A = JObj ra"
    "map_of ra ''tables'' = Some (JObj (tables_of A))"
    "\<forall>kv \<in> set (tables_of A). table_accepted (snd kv)" by blast
  from inv A(2) have "dict_inv (JObj (tables_of A))"
    unfolding A(1) by (rule dict_inv_lookup)
  with A(3) show "distinct (map fst (tables_of A))"
    and "\<forall>kv \<in> set (tables_of A). table_accepted (snd kv) \<and> dict_inv (snd kv)"
    by auto
qed

lemma well_formed_columns:
  assumes "well_formed A" "map_of (tables_of A) t = Some ta"
  shows "distinct (map fst (columns_of ta))"
    and "\<forall>kv \<in> set (columns_of ta). column_accepted (snd kv) \<and> dict_inv (snd kv)"
proof -
  from assms(2) have "(t, ta) \<in> set (tables_of A)" by (rule map_of_SomeD)
  with well_formed_tables(2) [OF assms(1)] have acc: "table_accepted ta" and inv: "dict_inv ta"
    by auto
  from table_acceptedE [OF acc] obtain d where d: "ta = JObj d"
    "map_of d ''columns'' = Some (JObj (columns_of ta))"
    "\<forall>kv \<in> set (columns_of ta). column_accepted (snd kv)" by blast
  from inv d(2) have "dict_inv (JObj (columns_of ta))"
    unfolding d(1) by (rule dict_inv_lookup)
  with d(3) show "distinct (map fst (columns_of ta))"
    and "\<forall>kv \<in> set (columns_of ta). column_accepted (snd kv) \<and> dict_inv (snd kv)"
    by auto
qed

lemma table_of_table_block: "op \<in> set (table_block t S T) \<Longrightarrow> table op = t"
  by (auto simp: table_block_def add_column_op_def drop_column_op_def alter_column_op_def)

lemma table_block_self:
  assumes "\<forall>kv \<in> set S. dict_inv (snd kv)"
  shows "table_block t S S = []"
proof -
  have "py_eq (dict_get S c JNull) (dict_get S c JNull)" for c
  proof (cases "map_of S c")
    case None
    then show ?thesis by (simp add: dict_get_def)
  next
    case (Some v)
    then have "(c, v) \<in> set S" by (rule map_of_SomeD)
    with assms have "dict_inv v" by auto
    with Some show ?thesis by (simp add: dict_get_def py_eq_refl)
  qed
  then show ?thesis by (simp add: table_block_def)
qed

lemma diff_spec_self:
  assumes "well_formed A"
  shows "diff_spec A A = []"
proof -
  have "table_block t (columns_of (dict_get (tables_of A) t JNull))
                      (columns_of (dict_get (tables_of A) t JNull)) = []"
    if "t \<in> fst ` set (tables_of A)" for t
    using well_formed_columns(2) [OF assms dict_get_in_keys [OF that]]
    by (intro table_block_self) auto
  then show ?thesis by (simp add: diff_spec_def)
qed

text \<open>
  Claim C3. Diffing a well-formed schema against itself yields the empty operation list;
  and a table of both schemas whose column dictionaries are equal (the same column names,
  each with an equal definition) has no operation in the diff.
\<close>

theorem diff_unchanged:
  assumes "well_formed A" "well_formed B"
  shows "diff_schemas A A = Some [] \<and>
         (\<exists>ops. diff_schemas A B = Some ops \<and>
            (\<forall>t ta tb. map_of (tables_of A) t = Some ta \<and> map_of (tables_of B) t = Some tb \<and>
                        py_eq (JObj (columns_of ta)) (JObj (columns_of tb))
                        \<longrightarrow> (\<forall>op \<in> set ops. table op \<noteq> t)))"
proof -
  from assms have acc: "load_schema_accepts A" "load_schema_accepts B"
    by (simp_all add: well_formed_def)
  have self: "diff_schemas A A = Some []"
    by (simp add: diff_schemas_closed [OF acc(1) acc(1)] diff_spec_self [OF assms(1)])
  have "table op \<noteq> t"
    if t: "map_of (tables_of A) t = Some ta" "map_of (tables_of B) t = Some tb"
      and eq: "py_eq (JObj (columns_of ta)) (JObj (columns_of tb))"
      and op: "op \<in> set (diff_spec A B)" for t ta tb op
  proof
    assume tab: "table op = t"
    have inA: "t \<in> fst ` set (tables_of A)" and inB: "t \<in> fst ` set (tables_of B)"
      using t by (auto dest!: map_of_SomeD intro: image_eqI [where x = "(t, ta)"]
                       image_eqI [where x = "(t, tb)"])
    from diff_spec_shape [OF op] consider
        (create) t' d where "op = create_table_op t' d" "t' \<notin> fst ` set (tables_of A)"
      | (drop) t' where "op = drop_table_op t'" "t' \<notin> fst ` set (tables_of B)"
      | (block) t' ta' tb' where "map_of (tables_of A) t' = Some ta'"
          "map_of (tables_of B) t' = Some tb'"
          "op \<in> set (table_block t' (columns_of ta') (columns_of tb'))"
      by blast
    then show False
    proof cases
      case create
      with tab inA show False by (simp add: create_table_op_def)
    next
      case drop
      with tab inB show False by (simp add: drop_table_op_def)
    next
      case block
      from table_of_table_block [OF block(3)] tab have "t' = t" by simp
      with block t have "op \<in> set (table_block t (columns_of ta) (columns_of tb))" by simp
      moreover have "table_block t (columns_of ta) (columns_of tb) = []"
        using eq well_formed_columns(1) [OF assms(1) t(1)] well_formed_columns(1) [OF assms(2) t(2)]
        by (rule table_block_equal)
      ultimately show False by simp
    qed
  qed
  then show ?thesis
    using self by (auto simp: diff_schemas_closed [OF acc])
qed

theorem diff_unchanged_witness:
  "well_formed example_source \<and> well_formed example_reordered \<and>
   diff_schemas example_source example_source = Some [] \<and>
   (\<exists>ta tb. map_of (tables_of example_source) ''users'' = Some ta \<and>
            map_of (tables_of example_reordered) ''users'' = Some tb \<and>
            py_eq (JObj (columns_of ta)) (JObj (columns_of tb))) \<and>
   (\<exists>ops. diff_schemas example_source example_reordered = Some ops \<and>
          (\<forall>op \<in> set ops. table op \<noteq> ''users''))"
proof -
  have s: "well_formed example_source" by code_simp
  have r: "well_formed example_reordered" by code_simp
  have ta: "map_of (tables_of example_source) ''users'' =
      Some (dict_get (tables_of example_source) ''users'' JNull)" by code_simp
  have tb: "map_of (tables_of example_reordered) ''users'' =
      Some (dict_get (tables_of example_reordered) ''users'' JNull)" by code_simp
  have eq: "py_eq (JObj (columns_of (dict_get (tables_of example_source) ''users'' JNull)))
                  (JObj (columns_of (dict_get (tables_of example_reordered) ''users'' JNull)))"
    by code_simp
  from diff_unchanged [OF s r] ta tb eq s r show ?thesis by blast
qed

subsection \<open>Created and dropped tables\<close>

lemma created_tables_spec:
  "set (map table (filter (\<lambda>op. op_type op = ''create_table'') (diff_spec A B))) =
     fst ` set (tables_of B) - fst ` set (tables_of A)"
proof -
  have block: "filter (\<lambda>op. op_type op = ''create_table'') (table_block t S T) = []" for t S T
    by (auto simp: table_block_def filter_empty_conv add_column_op_def drop_column_op_def
        alter_column_op_def)
  show ?thesis
    by (simp add: diff_spec_def filter_concat filter_map o_def block create_table_op_def
        drop_table_op_def)
qed

lemma dropped_tables_spec:
  "set (map table (filter (\<lambda>op. op_type op = ''drop_table'') (diff_spec A B))) =
     fst ` set (tables_of A) - fst ` set (tables_of B)"
proof -
  have block: "filter (\<lambda>op. op_type op = ''drop_table'') (table_block t S T) = []" for t S T
    by (auto simp: table_block_def filter_empty_conv add_column_op_def drop_column_op_def
        alter_column_op_def)
  show ?thesis
    by (simp add: diff_spec_def filter_concat filter_map o_def block create_table_op_def
        drop_table_op_def)
qed

text \<open>
  Claim C4. For well-formed schemas \<open>A\<close> and \<open>B\<close>, the tables named by the \<open>create_table\<close>
  operations of \<open>diff(A, B)\<close> are the tables named by the \<open>drop_table\<close> operations of
  \<open>diff(B, A)\<close>, and the tables dropped by \<open>diff(A, B)\<close> are those created by \<open>diff(B, A)\<close>.
\<close>

theorem create_drop_symmetry:
  assumes "well_formed A" "well_formed B"
  shows "\<exists>ab ba. diff_schemas A B = Some ab \<and> diff_schemas B A = Some ba \<and>
           set (map table (filter (\<lambda>op. op_type op = ''create_table'') ab)) =
           set (map table (filter (\<lambda>op. op_type op = ''drop_table'') ba)) \<and>
           set (map table (filter (\<lambda>op. op_type op = ''drop_table'') ab)) =
           set (map table (filter (\<lambda>op. op_type op = ''create_table'') ba))"
proof -
  from assms have acc: "load_schema_accepts A" "load_schema_accepts B"
    by (simp_all add: well_formed_def)
  show ?thesis
    unfolding diff_schemas_closed [OF acc] diff_schemas_closed [OF acc(2) acc(1)]
    by (simp only: created_tables_spec dropped_tables_spec simp_thms option.inject ex_simps)
qed

theorem create_drop_symmetry_witness:
  "well_formed example_source \<and> well_formed example_target \<and>
   (\<exists>ab ba. diff_schemas example_source example_target = Some ab \<and>
           diff_schemas example_target example_source = Some ba \<and>
           set (map table (filter (\<lambda>op. op_type op = ''create_table'') ab)) = {''posts''} \<and>
           set (map table (filter (\<lambda>op. op_type op = ''drop_table'') ba)) = {''posts''} \<and>
           set (map table (filter (\<lambda>op. op_type op = ''drop_table'') ab)) = {''old''} \<and>
           set (map table (filter (\<lambda>op. op_type op = ''create_table'') ba)) = {''old''})"
proof -
  have s: "well_formed example_source" by code_simp
  have t: "well_formed example_target" by code_simp
  from create_drop_symmetry [OF s t] obtain ab ba where
    ab: "diff_schemas example_source example_target = Some ab"
    and ba: "diff_schemas example_target example_source = Some ba"
    and 1: "set (map table (filter (\<lambda>op. op_type op = ''create_table'') ab)) =
            set (map table (filter (\<lambda>op. op_type op = ''drop_table'') ba))"
    and 2: "set (map table (filter (\<lambda>op. op_type op = ''drop_table'') ab)) =
            set (map table (filter (\<lambda>op. op_type op = ''create_table'') ba))"
    by blast
  have "map_option (\<lambda>ops. map table (filter (\<lambda>op. op_type op = ''create_table'') ops))
          (diff_schemas example_source example_target) = Some [''posts'']"
    by code_simp
  with ab have 3: "map table (filter (\<lambda>op. op_type op = ''create_table'') ab) = [''posts'']"
    by simp
  have "map_option (\<lambda>ops. map table (filter (\<lambda>op. op_type op = ''drop_table'') ops))
          (diff_schemas example_source example_target) = Some [''old'']"
    by code_simp
  with ab have 4: "map table (filter (\<lambda>op. op_type op = ''drop_table'') ab) = [''old'']"
    by simp
  from 1 3 have 5: "set (map table (filter (\<lambda>op. op_type op = ''drop_table'') ba)) = {''posts''}"
    by simp
  from 2 4 have 6: "set (map table (filter (\<lambda>op. op_type op = ''create_table'') ba)) = {''old''}"
    by simp
  from 3 have 7: "set (map table (filter (\<lambda>op. op_type op = ''create_table'') ab)) = {''posts''}"
    by simp
  from 4 have 8: "set (map table (filter (\<lambda>op. op_type op = ''drop_table'') ab)) = {''old''}"
    by simp
  from s t ab ba 5 6 7 8 show ?thesis by blast
qed

subsection \<open>Destructive operations\<close>

lemma diff_spec_ops:
  assumes "op \<in> set (diff_spec A B)"
  obtains
    (create) t d where "op = create_table_op t d" "map_of (tables_of B) t = Some d"
  | (drop_table) t where "op = drop_table_op t"
  | (add) t c ta tb d where "map_of (tables_of A) t = Some ta" "map_of (tables_of B) t = Some tb"
      "op = add_column_op t c d" "map_of (columns_of tb) c = Some d"
  | (drop_column) t c where "op = drop_column_op t c"
  | (alter) t c ta tb sd td where "map_of (tables_of A) t = Some ta"
      "map_of (tables_of B) t = Some tb" "op = alter_column_op t c sd td"
      "map_of (columns_of ta) c = Some sd" "map_of (columns_of tb) c = Some td" "\<not> py_eq sd td"
proof -
  from diff_spec_shape [OF assms] consider
      (c) t d where "op = create_table_op t d" "map_of (tables_of B) t = Some d"
    | (d) t where "op = drop_table_op t"
    | (b) t ta tb where "map_of (tables_of A) t = Some ta" "map_of (tables_of B) t = Some tb"
        "op \<in> set (table_block t (columns_of ta) (columns_of tb))"
    by blast
  then show thesis
  proof cases
    case c
    then show thesis by (rule create)
  next
    case d
    then show thesis by (rule drop_table)
  next
    case b
    from table_block_shape [OF b(3)] consider
        (ba) c d where "op = add_column_op t c d" "map_of (columns_of tb) c = Some d"
      | (bd) c where "op = drop_column_op t c"
      | (bl) c sd td where "op = alter_column_op t c sd td" "map_of (columns_of ta) c = Some sd"
          "map_of (columns_of tb) c = Some td" "\<not> py_eq sd td"
      by blast
    then show thesis
    proof cases
      case ba
      with b(1,2) show thesis by (intro add)
    next
      case bd
      then show thesis by (rule drop_column)
    next
      case bl
      with b(1,2) show thesis by (intro alter)
    qed
  qed
qed

lemma type_changes_strings:
  "map_of sd ''type'' = Some (JStr a) \<Longrightarrow> map_of td ''type'' = Some (JStr b) \<Longrightarrow>
   type_changes (JObj sd) (JObj td) = (a \<noteq> b)"
  by (simp add: type_changes_def dict_get_def)

text \<open>
  Claim C5. In the diff of two well-formed schemas, an \<open>alter_column\<close> operation on column
  \<open>c\<close> is destructive exactly when the source definition of \<open>c\<close> is nullable (truthy) or
  has no \<open>nullable\<close> attribute and the target definition has \<open>nullable\<close> explicitly false,
  or when the two \<open>type\<close> values differ. Every \<open>drop_table\<close> and every \<open>drop_column\<close>
  operation is destructive.
\<close>

theorem destructive_classification:
  assumes "well_formed A" "well_formed B"
  shows "\<exists>ops. diff_schemas A B = Some ops \<and>
     (\<forall>op \<in> set ops.
        (op_type op = ''alter_column'' \<longrightarrow>
           (\<exists>c ta tb sd td. column op = Some c \<and>
              map_of (tables_of A) (table op) = Some ta \<and>
              map_of (tables_of B) (table op) = Some tb \<and>
              map_of (columns_of ta) c = Some sd \<and> map_of (columns_of tb) c = Some td \<and>
              destructive op =
                ((nullable_or_unspecified sd \<and> explicitly_not_nullable td) \<or> type_changes sd td)))
      \<and> (op_type op = ''drop_table'' \<or> op_type op = ''drop_column'' \<longrightarrow> destructive op))"
proof -
  from assms have acc: "load_schema_accepts A" "load_schema_accepts B"
    by (simp_all add: well_formed_def)
  have "(op_type op = ''alter_column'' \<longrightarrow>
           (\<exists>c ta tb sd td. column op = Some c \<and>
              map_of (tables_of A) (table op) = Some ta \<and>
              map_of (tables_of B) (table op) = Some tb \<and>
              map_of (columns_of ta) c = Some sd \<and> map_of (columns_of tb) c = Some td \<and>
              destructive op =
                ((nullable_or_unspecified sd \<and> explicitly_not_nullable td) \<or> type_changes sd td)))
      \<and> (op_type op = ''drop_table'' \<or> op_type op = ''drop_column'' \<longrightarrow> destructive op)"
    if "op \<in> set (diff_spec A B)" for op
    using that
  proof (cases rule: diff_spec_ops)
    case (alter t c ta tb sd td)
    have "column op = Some c \<and>
          map_of (tables_of A) (table op) = Some ta \<and>
          map_of (tables_of B) (table op) = Some tb \<and>
          map_of (columns_of ta) c = Some sd \<and> map_of (columns_of tb) c = Some td \<and>
          destructive op =
            ((nullable_or_unspecified sd \<and> explicitly_not_nullable td) \<or> type_changes sd td)"
      using alter by (simp add: alter_column_op_def alter_is_destructive_def)
    then show ?thesis
      using alter(3) by (auto simp: alter_column_op_def)
  qed (simp_all add: create_table_op_def drop_table_op_def add_column_op_def drop_column_op_def)
  then show ?thesis
    by (simp add: diff_schemas_closed [OF acc])
qed

theorem destructive_classification_witness:
  "well_formed example_source \<and> well_formed example_target \<and>
   (\<exists>ops. diff_schemas example_source example_target = Some ops \<and>
     (\<exists>op \<in> set ops. op_type op = ''alter_column'' \<and> destructive op) \<and>
     (\<exists>op \<in> set ops. op_type op = ''drop_table'') \<and>
     (\<exists>op \<in> set ops. op_type op = ''drop_column'') \<and>
     (\<forall>op \<in> set ops.
        (op_type op = ''alter_column'' \<longrightarrow>
           (\<exists>c ta tb sd td. column op = Some c \<and>
              map_of (tables_of example_source) (table op) = Some ta \<and>
              map_of (tables_of example_target) (table op) = Some tb \<and>
              map_of (columns_of ta) c = Some sd \<and> map_of (columns_of tb) c = Some td \<and>
              destructive op =
                ((nullable_or_unspecified sd \<and> explicitly_not_nullable td) \<or> type_changes sd td)))
      \<and> (op_type op = ''drop_table'' \<or> op_type op = ''drop_column'' \<longrightarrow> destructive op)))"
proof -
  have s: "well_formed example_source" by code_simp
  have t: "well_formed example_target" by code_simp
  have "case diff_schemas example_source example_target of
          None \<Rightarrow> False
        | Some ops \<Rightarrow>
            (\<exists>op \<in> set ops. op_type op = ''alter_column'' \<and> destructive op) \<and>
            (\<exists>op \<in> set ops. op_type op = ''drop_table'') \<and>
            (\<exists>op \<in> set ops. op_type op = ''drop_column'')"
    by code_simp
  then obtain ops where ops: "diff_schemas example_source example_target = Some ops"
    and ex: "\<exists>op \<in> set ops. op_type op = ''alter_column'' \<and> destructive op"
      "\<exists>op \<in> set ops. op_type op = ''drop_table''"
      "\<exists>op \<in> set ops. op_type op = ''drop_column''"
    by (cases "diff_schemas example_source example_target") simp_all
  from destructive_classification [OF s t] obtain ops' where
    ops': "diff_schemas example_source example_target = Some ops'"
    and cl: "\<forall>op \<in> set ops'.
        (op_type op = ''alter_column'' \<longrightarrow>
           (\<exists>c ta tb sd td. column op = Some c \<and>
              map_of (tables_of example_source) (table op) = Some ta \<and>
              map_of (tables_of example_target) (table op) = Some tb \<and>
              map_of (columns_of ta) c = Some sd \<and> map_of (columns_of tb) c = Some td \<and>
              destructive op =
                ((nullable_or_unspecified sd \<and> explicitly_not_nullable td) \<or> type_changes sd td)))
      \<and> (op_type op = ''drop_table'' \<or> op_type op = ''drop_column'' \<longrightarrow> destructive op)"
    by (rule exE) (erule conjE)
  from ops ops' have eq: "ops' = ops" by simp
  show ?thesis
    by (intro conjI exI [of _ ops]) (rule s t ops ex cl [unfolded eq])+
qed

text \<open>
  Claim C10. In the diff of two well-formed schemas no \<open>create_table\<close> and no
  \<open>add_column\<close> operation is destructive; a destructive operation is a \<open>drop_table\<close>, a
  \<open>drop_column\<close>, or an \<open>alter_column\<close> whose definitions meet the classification; and
  when the diff holds only \<open>create_table\<close> and \<open>add_column\<close> operations the driver never
  refuses to proceed, whatever the flags.
\<close>

theorem additive_not_destructive:
  assumes "well_formed A" "well_formed B"
  shows "\<exists>ops. diff_schemas A B = Some ops \<and>
     (\<forall>op \<in> set ops. op_type op = ''create_table'' \<or> op_type op = ''add_column''
                       \<longrightarrow> \<not> destructive op) \<and>
     (\<forall>op \<in> set ops. destructive op \<longrightarrow>
         op_type op = ''drop_table'' \<or> op_type op = ''drop_column'' \<or>
         (op_type op = ''alter_column'' \<and>
          (\<exists>sd td. payload op = JObj [(''from'', sd), (''to'', td)] \<and> alter_is_destructive sd td))) \<and>
     ((\<forall>op \<in> set ops. op_type op = ''create_table'' \<or> op_type op = ''add_column'') \<longrightarrow>
        (\<forall>dialect dry_run allow refused.
            main_core A B dialect dry_run allow \<noteq> Some (Refused refused)))"
proof -
  from assms have acc: "load_schema_accepts A" "load_schema_accepts B"
    by (simp_all add: well_formed_def)
  have kinds: "(op_type op = ''create_table'' \<or> op_type op = ''add_column'' \<longrightarrow> \<not> destructive op) \<and>
      (destructive op \<longrightarrow>
         op_type op = ''drop_table'' \<or> op_type op = ''drop_column'' \<or>
         (op_type op = ''alter_column'' \<and>
          (\<exists>sd td. payload op = JObj [(''from'', sd), (''to'', td)] \<and> alter_is_destructive sd td)))"
    if "op \<in> set (diff_spec A B)" for op
    using that
    by (cases rule: diff_spec_ops)
      (simp_all add: create_table_op_def drop_table_op_def add_column_op_def drop_column_op_def
        alter_column_op_def)
  have "main_core A B dialect dry_run allow \<noteq> Some (Refused refused)"
    if "\<forall>op \<in> set (diff_spec A B). op_type op = ''create_table'' \<or> op_type op = ''add_column''"
    for dialect dry_run allow refused
  proof -
    from that kinds have "filter destructive (diff_spec A B) = []"
      by (auto simp: filter_empty_conv)
    then show ?thesis
      by (auto simp: main_core_def diff_schemas_closed [OF acc] Let_def
          split: Option.bind_splits)
  qed
  with kinds show ?thesis
    by (simp add: diff_schemas_closed [OF acc])
qed

theorem additive_not_destructive_witness:
  "well_formed example_source \<and> well_formed example_additive \<and>
   (\<exists>ops. diff_schemas example_source example_additive = Some ops \<and>
      (\<forall>op \<in> set ops. op_type op = ''create_table'' \<or> op_type op = ''add_column'') \<and>
      (\<forall>op \<in> set ops. \<not> destructive op)) \<and>
   (\<forall>dialect dry_run allow refused.
      main_core example_source example_additive dialect dry_run allow \<noteq> Some (Refused refused))"
proof -
  have s: "well_formed example_source" by code_simp
  have a: "well_formed example_additive" by code_simp
  have v: "diff_schemas example_source example_additive =
      Some [create_table_op ''tags''
              (JObj [(''columns'', JObj [(''label'', JObj [(''type'', JStr ''TEXT'')])])]),
            add_column_op ''users'' ''name''
              (JObj [(''type'', JStr ''TEXT''), (''default'', JStr ''anonymous'')])]"
    by code_simp
  have k: "\<forall>op \<in> set [create_table_op ''tags''
              (JObj [(''columns'', JObj [(''label'', JObj [(''type'', JStr ''TEXT'')])])]),
            add_column_op ''users'' ''name''
              (JObj [(''type'', JStr ''TEXT''), (''default'', JStr ''anonymous'')])].
          op_type op = ''create_table'' \<or> op_type op = ''add_column''"
    by (simp add: create_table_op_def add_column_op_def)
  from additive_not_destructive [OF s a] v k s a show ?thesis
    by auto
qed

section \<open>Properties of the renderers\<close>

lemma has_default_clause:
  "(if has_default d then [''DEFAULT '' @ default_sql (dict_get d ''default'' JNull)] else []) =
     default_clause (map_of d ''default'')"
  by (cases "map_of d ''default''" rule: default_clause.cases)
    (simp_all add: has_default_def dict_get_def)

text \<open>
  Claim C6. For a column definition with a \<open>type\<close>, \<open>column_sql\<close> joins with single spaces,
  in this order: the quoted name, the type, \<open>PRIMARY KEY\<close> if the flag is set, \<open>NOT NULL\<close> if
  \<open>nullable\<close> is explicitly false, \<open>DEFAULT\<close> and the value if a non-null default is present
  (a string not beginning with \<open>CURRENT_\<close> between single quotes, any other value as it
  prints), and \<open>AUTOINCREMENT\<close> only for the dialect \<open>sqlite\<close> when the flag is set.
\<close>

theorem column_sql_order:
  assumes "map_of d ''type'' = Some ty"
  shows "column_sql col_name (JObj d) dialect =
           Some (py_join '' '' (column_parts col_name d ty dialect))"
proof -
  have nl: "(dict_get d ''nullable'' JNull = JBool False) = (map_of d ''nullable'' = Some (JBool False))"
    by (auto simp: dict_get_def split: option.splits)
  have "column_sql col_name (JObj d) dialect =
      Some (py_join '' ''
        (([quoted col_name, py_str ty]
          @ (if py_truthy (dict_get d ''primary_key'' JNull) then [''PRIMARY KEY''] else [])
          @ (if map_of d ''nullable'' = Some (JBool False) then [''NOT NULL''] else []))
          @ (if has_default d then [''DEFAULT '' @ default_sql (dict_get d ''default'' JNull)] else [])
          @ (if dialect = ''sqlite'' \<and> py_truthy (dict_get d ''autoincrement'' JNull)
             then [''AUTOINCREMENT''] else [])))"
    using assms by (simp add: Let_def nl)
  then show ?thesis
    by (simp only: has_default_clause column_parts_def append_assoc)
qed

theorem column_sql_order_witness:
  "column_sql ''id'' (JObj example_column) ''sqlite'' =
     Some (quoted ''id'' @ '' INTEGER PRIMARY KEY NOT NULL DEFAULT 0 AUTOINCREMENT'') \<and>
   column_sql ''id'' (JObj example_column) ''postgres'' =
     Some (quoted ''id'' @ '' INTEGER PRIMARY KEY NOT NULL DEFAULT 0'')"
proof -
  have ty: "map_of example_column ''type'' = Some (JStr ''INTEGER'')" by code_simp
  have s: "py_join '' '' (column_parts ''id'' example_column (JStr ''INTEGER'') ''sqlite'') =
      quoted ''id'' @ '' INTEGER PRIMARY KEY NOT NULL DEFAULT 0 AUTOINCREMENT''" by code_simp
  have p: "py_join '' '' (column_parts ''id'' example_column (JStr ''INTEGER'') ''postgres'') =
      quoted ''id'' @ '' INTEGER PRIMARY KEY NOT NULL DEFAULT 0''" by code_simp
  from column_sql_order [OF ty, of "''id''" "''sqlite''"]
       column_sql_order [OF ty, of "''id''" "''postgres''"] s p
  show ?thesis by simp
qed

text \<open>
  Claim C7. For a \<open>drop_column\<close> or \<open>alter_column\<close> operation the SQLite emitter returns, up
  and down, exactly one statement, and that statement is a comment: it begins with \<open>--\<close>, so
  it is neither an \<open>ALTER\<close> nor a \<open>DROP\<close> statement.
\<close>

theorem sqlite_comment_only:
  assumes "op_type op = ''drop_column'' \<or> op_type op = ''alter_column''"
  shows "(\<exists>s. sqlite_up_sql op = Some [s] \<and> startswith s ''--'' \<and>
              \<not> startswith s ''ALTER'' \<and> \<not> startswith s ''DROP'') \<and>
         (\<exists>s. sqlite_down_sql op = Some [s] \<and> startswith s ''--'' \<and>
              \<not> startswith s ''ALTER'' \<and> \<not> startswith s ''DROP'')"
  using assms by (auto simp: sqlite_up_sql_def sqlite_down_sql_def startswith_def)

theorem sqlite_comment_only_witness:
  "(\<exists>s. sqlite_up_sql example_alter = Some [s] \<and> startswith s ''--'' \<and>
              \<not> startswith s ''ALTER'' \<and> \<not> startswith s ''DROP'') \<and>
   (\<exists>s. sqlite_down_sql example_alter = Some [s] \<and> startswith s ''--'' \<and>
              \<not> startswith s ''ALTER'' \<and> \<not> startswith s ''DROP'')"
proof -
  have "op_type example_alter = ''drop_column'' \<or> op_type example_alter = ''alter_column''"
    by (simp add: example_alter_def alter_column_op_def)
  then show ?thesis by (rule sqlite_comment_only)
qed

section \<open>Properties of the report assembler\<close>

lemma render_loop_step:
  "render_loop dialect (op # ops) up_lines down_lines =
     do {
       u \<leftarrow> emit_up dialect op;
       d \<leftarrow> emit_down dialect op;
       render_loop dialect ops (up_lines @ u) (down_lines @ d)
     }"
  by (simp add: emit_up_def emit_down_def)

lemma render_loop_closed:
  "render_loop dialect ops up_lines down_lines =
     do {
       ups \<leftarrow> those (map (emit_up dialect) ops);
       downs \<leftarrow> those (map (emit_down dialect) ops);
       Some (up_lines @ concat ups, down_lines @ concat downs)
     }"
proof (induction ops arbitrary: up_lines down_lines)
  case Nil
  then show ?case by simp
next
  case (Cons op ops)
  show ?case
    unfolding render_loop_step Cons.IH
    by (cases "emit_up dialect op"; cases "emit_down dialect op";
        cases "those (map (emit_up dialect) ops)"; cases "those (map (emit_down dialect) ops)")
      simp_all
qed

lemma render_sql_closed: "render_sql ops dialect = document rev ops dialect"
proof -
  have "rev (concat downs) = concat (map rev (rev downs))" for downs :: "string list list"
    by (simp add: rev_concat rev_map)
  then show ?thesis
    by (cases "those (map (emit_up dialect) ops)"; cases "those (map (emit_down dialect) ops)")
      (simp_all add: render_sql_def document_def render_loop_closed)
qed

text \<open>
  Claim C1, as amended. In full SQL mode the output holds the header, the up statements in
  operation order, the separator, and then the down statements in the reverse of the order
  in which they were emitted: the down block of the last operation comes first, and the
  statements of a multi-statement down block appear reversed as well.
\<close>

theorem render_sql_reverses_down: "render_sql ops dialect = document rev ops dialect"
  by (rule render_sql_closed)

theorem render_sql_reverses_down_witness:
  \<open>render_sql [example_alter] ''postgres'' = document rev [example_alter] ''postgres'' \<and>
   document rev [example_alter] ''postgres'' =
     Some (py_join [CHR 0x0A]
       [''-- Generated by database-migration-generator'',
        ''-- UP'',
        ''ALTER TABLE "users" ALTER COLUMN "email" TYPE TEXT;'',
        ''ALTER TABLE "users" ALTER COLUMN "email" SET NOT NULL;'',
        ''ALTER TABLE "users" ALTER COLUMN "email" SET DEFAULT '' @ [CHR 0x27] @ ''x'' @ [CHR 0x27] @ '';'',
        [],
        ''-- DOWN'',
        ''ALTER TABLE "users" ALTER COLUMN "email" DROP DEFAULT;'',
        ''ALTER TABLE "users" ALTER COLUMN "email" DROP NOT NULL;'',
        ''ALTER TABLE "users" ALTER COLUMN "email" TYPE TEXT;'',
        []])\<close>
proof -
  have "render_sql [example_alter] ''postgres'' =
     Some (py_join [CHR 0x0A]
       [''-- Generated by database-migration-generator'',
        ''-- UP'',
        ''ALTER TABLE '' @ dq @ ''users'' @ dq @ '' ALTER COLUMN '' @ dq @ ''email'' @ dq @ '' TYPE TEXT;'',
        ''ALTER TABLE '' @ dq @ ''users'' @ dq @ '' ALTER COLUMN '' @ dq @ ''email'' @ dq @ '' SET NOT NULL;'',
        ''ALTER TABLE '' @ dq @ ''users'' @ dq @ '' ALTER COLUMN '' @ dq @ ''email'' @ dq @ '' SET DEFAULT '' @ [CHR 0x27] @ ''x'' @ [CHR 0x27] @ '';'',
        [],
        ''-- DOWN'',
        ''ALTER TABLE '' @ dq @ ''users'' @ dq @ '' ALTER COLUMN '' @ dq @ ''email'' @ dq @ '' DROP DEFAULT;'',
        ''ALTER TABLE '' @ dq @ ''users'' @ dq @ '' ALTER COLUMN '' @ dq @ ''email'' @ dq @ '' DROP NOT NULL;'',
        ''ALTER TABLE '' @ dq @ ''users'' @ dq @ '' ALTER COLUMN '' @ dq @ ''email'' @ dq @ '' TYPE TEXT;'',
        []])"
    by code_simp
  with render_sql_reverses_down [of "[example_alter]" "''postgres''"] show ?thesis
    by (simp add: dq_def)
qed

text \<open>
  Claim C1 as stated, with every down block in its own internal order, fails: the down
  block of an \<open>alter_column\<close> operation for Postgres has three statements, and the
  document prints them from the last to the first.
\<close>

theorem down_block_order_counterexample:
  \<open>pg_down_sql example_alter =
     Some [''ALTER TABLE "users" ALTER COLUMN "email" TYPE TEXT;'',
           ''ALTER TABLE "users" ALTER COLUMN "email" DROP NOT NULL;'',
           ''ALTER TABLE "users" ALTER COLUMN "email" DROP DEFAULT;''] \<and>
   render_sql [example_alter] ''postgres'' \<noteq> document id [example_alter] ''postgres''\<close>
  by code_simp

subsection \<open>Rendering never raises on the diff of well-formed schemas\<close>

lemma those_map_Some:
  "(\<forall>x \<in> set xs. \<exists>y. f x = Some y) \<Longrightarrow> \<exists>ys. those (map f xs) = Some ys"
  by (induction xs) auto

lemma those_map_None:
  "x \<in> set xs \<Longrightarrow> f x = None \<Longrightarrow> those (map f xs) = None"
  by (induction xs) (auto split: option.splits)

lemma document_total:
  "(\<exists>out. document within ops dialect = Some out) =
     (\<forall>op \<in> set ops. (\<exists>u. emit_up dialect op = Some u) \<and> (\<exists>d. emit_down dialect op = Some d))"
proof
  assume "\<exists>out. document within ops dialect = Some out"
  then obtain ups downs where "those (map (emit_up dialect) ops) = Some ups"
    "those (map (emit_down dialect) ops) = Some downs"
    by (auto simp: document_def split: Option.bind_splits)
  then show "\<forall>op \<in> set ops. (\<exists>u. emit_up dialect op = Some u) \<and> (\<exists>d. emit_down dialect op = Some d)"
    using those_map_None [of _ ops "emit_up dialect"] those_map_None [of _ ops "emit_down dialect"]
    by (metis option.distinct(1) option.exhaust)
next
  assume a: "\<forall>op \<in> set ops. (\<exists>u. emit_up dialect op = Some u) \<and> (\<exists>d. emit_down dialect op = Some d)"
  then obtain ups where "those (map (emit_up dialect) ops) = Some ups"
    using those_map_Some [of ops "emit_up dialect"] by auto
  moreover from a obtain downs where "those (map (emit_down dialect) ops) = Some downs"
    using those_map_Some [of ops "emit_down dialect"] by auto
  ultimately show "\<exists>out. document within ops dialect = Some out"
    by (simp add: document_def)
qed

lemma column_sql_total: "column_accepted cd \<Longrightarrow> \<exists>s. column_sql name cd dialect = Some s"
  by (cases cd) (auto simp: Let_def)

lemma alter_lines_total: "column_accepted cd \<Longrightarrow> \<exists>ls. alter_lines op cd = Some ls"
  by (cases cd) (auto simp: Let_def)

lemma create_table_sql_total:
  assumes "table_accepted (payload op)"
  shows "\<exists>ls. create_table_sql op dialect = Some ls"
proof -
  from table_acceptedE [OF assms] obtain d where d: "payload op = JObj d"
    "map_of d ''columns'' = Some (JObj (columns_of (payload op)))"
    "\<forall>kv \<in> set (columns_of (payload op)). column_accepted (snd kv)" by blast
  let ?cols = "columns_of (payload op)"
  have "\<forall>name \<in> set (sort (map fst ?cols)).
          \<exists>s. do { col_def \<leftarrow> py_getitem (JObj ?cols) name; column_sql name col_def dialect } = Some s"
  proof
    fix name assume "name \<in> set (sort (map fst ?cols))"
    then have "name \<in> fst ` set ?cols" by simp
    from accepted_lookup [OF d(3) this] obtain cd where "map_of ?cols name = Some cd"
      "column_accepted cd" by blast
    then show "\<exists>s. do { col_def \<leftarrow> py_getitem (JObj ?cols) name;
                        column_sql name col_def dialect } = Some s"
      using column_sql_total [of cd name dialect] by simp
  qed
  from those_map_Some [OF this] obtain rendered where
    "those (map (\<lambda>name. do { col_def \<leftarrow> py_getitem (JObj ?cols) name;
                              column_sql name col_def dialect })
                (sort (map fst ?cols))) = Some rendered" by blast
  then show ?thesis
    using d(1,2) by (simp add: create_table_sql_def)
qed

lemma add_column_sql_total:
  assumes "payload op = JObj [(''column_def'', cd)]" "column_accepted cd"
  shows "\<exists>ls. add_column_sql op dialect = Some ls"
proof -
  obtain s where "column_sql (case column op of None \<Rightarrow> [] | Some c \<Rightarrow> c) cd dialect = Some s"
    using column_sql_total [OF assms(2)] by blast
  then show ?thesis
    using assms(1) by (simp add: add_column_sql_def)
qed

lemma emit_diff_spec_total:
  assumes "well_formed A" "well_formed B" "op \<in> set (diff_spec A B)"
  shows "(\<exists>u. emit_up dialect op = Some u) \<and> (\<exists>d. emit_down dialect op = Some d)"
  using assms(3)
proof (cases rule: diff_spec_ops)
  case (create t d)
  from create(2) have "(t, d) \<in> set (tables_of B)" by (rule map_of_SomeD)
  with well_formed_tables(2) [OF assms(2)] have "table_accepted d" by auto
  then have "table_accepted (payload op)"
    using create(1) by (simp add: create_table_op_def)
  from create_table_sql_total [OF this] show ?thesis
    using create(1)
    by (simp add: emit_up_def emit_down_def pg_up_sql_def pg_down_sql_def sqlite_up_sql_def
        sqlite_down_sql_def create_table_op_def)
next
  case (drop_table t)
  then show ?thesis
    by (simp add: emit_up_def emit_down_def pg_up_sql_def pg_down_sql_def sqlite_up_sql_def
        sqlite_down_sql_def drop_table_op_def)
next
  case (add t c ta tb d)
  from add(4) have "(c, d) \<in> set (columns_of tb)" by (rule map_of_SomeD)
  with well_formed_columns(2) [OF assms(2) add(2)] have "column_accepted d" by auto
  moreover have "payload op = JObj [(''column_def'', d)]"
    using add(3) by (simp add: add_column_op_def)
  ultimately have "\<exists>ls. add_column_sql op dialect' = Some ls" for dialect'
    by (intro add_column_sql_total)
  then show ?thesis
    using add(3)
    by (simp add: emit_up_def emit_down_def pg_up_sql_def pg_down_sql_def sqlite_up_sql_def
        sqlite_down_sql_def add_column_op_def)
next
  case (drop_column t c)
  then show ?thesis
    by (simp add: emit_up_def emit_down_def pg_up_sql_def pg_down_sql_def sqlite_up_sql_def
        sqlite_down_sql_def drop_column_op_def)
next
  case (alter t c ta tb sd td)
  from alter(4) have "(c, sd) \<in> set (columns_of ta)" by (rule map_of_SomeD)
  with well_formed_columns(2) [OF assms(1) alter(1)] have sd: "column_accepted sd" by auto
  from alter(5) have "(c, td) \<in> set (columns_of tb)" by (rule map_of_SomeD)
  with well_formed_columns(2) [OF assms(2) alter(2)] have td: "column_accepted td" by auto
  from alter_lines_total [OF sd, of op] alter_lines_total [OF td, of op]
  show ?thesis
    using alter(3)
    by (simp add: emit_up_def emit_down_def pg_up_sql_def pg_down_sql_def sqlite_up_sql_def
        sqlite_down_sql_def alter_column_op_def)
qed

lemma unknown_kind_emitted:
  assumes "op_type op \<notin> known_kinds"
  shows "emit_up dialect op = Some [''-- unsupported operation: '' @ op_type op]"
    and "emit_down dialect op = Some [''-- unsupported operation: '' @ op_type op]"
  using assms
  by (simp_all add: known_kinds_def emit_up_def emit_down_def pg_up_sql_def pg_down_sql_def
      sqlite_up_sql_def sqlite_down_sql_def)

text \<open>
  Claim C8. On well-formed schemas diffing returns an operation list and full-SQL rendering
  of that list returns a document, for every dialect: neither raises. An operation whose
  kind is none of the five known kinds is rendered by each of the four emitters as the one
  comment line naming its kind, and adding it to a list that renders gives a list that
  renders.
\<close>

theorem total_on_well_formed:
  "(well_formed A \<and> well_formed B \<longrightarrow>
      (\<exists>ops out. diff_schemas A B = Some ops \<and> render_sql ops dialect = Some out)) \<and>
   (op_type op \<notin> known_kinds \<longrightarrow>
      pg_up_sql op = Some [''-- unsupported operation: '' @ op_type op] \<and>
      pg_down_sql op = Some [''-- unsupported operation: '' @ op_type op] \<and>
      sqlite_up_sql op = Some [''-- unsupported operation: '' @ op_type op] \<and>
      sqlite_down_sql op = Some [''-- unsupported operation: '' @ op_type op] \<and>
      (\<forall>before after d. (\<exists>out. render_sql (before @ after) d = Some out) \<longrightarrow>
                         (\<exists>out. render_sql (before @ op # after) d = Some out)))"
proof (intro conjI impI)
  assume wf: "well_formed A \<and> well_formed B"
  then have acc: "load_schema_accepts A" "load_schema_accepts B"
    by (simp_all add: well_formed_def)
  have "\<exists>out. document rev (diff_spec A B) dialect = Some out"
    unfolding document_total using emit_diff_spec_total wf by blast
  then show "\<exists>ops out. diff_schemas A B = Some ops \<and> render_sql ops dialect = Some out"
    by (simp add: diff_schemas_closed [OF acc] render_sql_closed)
next
  assume "op_type op \<notin> known_kinds"
  then show "pg_up_sql op = Some [''-- unsupported operation: '' @ op_type op]"
    and "pg_down_sql op = Some [''-- unsupported operation: '' @ op_type op]"
    and "sqlite_up_sql op = Some [''-- unsupported operation: '' @ op_type op]"
    and "sqlite_down_sql op = Some [''-- unsupported operation: '' @ op_type op]"
    by (simp_all add: known_kinds_def pg_up_sql_def pg_down_sql_def sqlite_up_sql_def
        sqlite_down_sql_def)
next
  assume "op_type op \<notin> known_kinds"
  from unknown_kind_emitted [OF this]
  show "\<forall>before after d. (\<exists>out. render_sql (before @ after) d = Some out) \<longrightarrow>
                         (\<exists>out. render_sql (before @ op # after) d = Some out)"
    unfolding render_sql_closed document_total by auto
qed

theorem total_on_well_formed_witness:
  "well_formed example_source \<and> well_formed example_target \<and>
   (\<exists>ops out. diff_schemas example_source example_target = Some ops \<and>
               render_sql ops ''sqlite'' = Some out) \<and>
   op_type example_rename \<notin> known_kinds \<and>
   pg_up_sql example_rename = Some [''-- unsupported operation: rename_table''] \<and>
   (\<exists>out. render_sql ([example_alter] @ [example_alter]) ''postgres'' = Some out) \<and>
   (\<exists>out. render_sql ([example_alter] @ example_rename # [example_alter]) ''postgres'' = Some out)"
proof -
  have s: "well_formed example_source" by code_simp
  have t: "well_formed example_target" by code_simp
  have k: "op_type example_rename \<notin> known_kinds" by code_simp
  have n: "op_type example_rename = ''rename_table''" by code_simp
  have "render_sql ([example_alter] @ [example_alter]) ''postgres'' \<noteq> None" by code_simp
  then have r: "\<exists>out. render_sql ([example_alter] @ [example_alter]) ''postgres'' = Some out"
    by blast
  note main = total_on_well_formed [of example_source example_target "''sqlite''" example_rename]
  from main s t
  have d: "\<exists>ops out. diff_schemas example_source example_target = Some ops \<and>
                     render_sql ops ''sqlite'' = Some out"
    by blast
  from main k
  have up: "pg_up_sql example_rename = Some [''-- unsupported operation: '' @ op_type example_rename]"
    and ins: "\<forall>before after d. (\<exists>out. render_sql (before @ after) d = Some out) \<longrightarrow>
                (\<exists>out. render_sql (before @ example_rename # after) d = Some out)"
    by blast+
  from ins r
  have l: "\<exists>out. render_sql ([example_alter] @ example_rename # [example_alter]) ''postgres'' = Some out"
    by blast
  from up have up': "pg_up_sql example_rename = Some [''-- unsupported operation: rename_table'']"
    by (simp add: n)
  from s t d k up' r l show ?thesis by blast
qed

subsection \<open>The dry-run summary\<close>

lemma dict_count_update:
  "dict_count (AList.update k v by_type) k' = (if k' = k then v else dict_count by_type k')"
  by (simp add: dict_count_def update_conv')

lemma count_loop_closed:
  "distinct (map fst by_type) \<Longrightarrow>
   \<exists>by_type'. count_loop ops by_type n = (by_type', n + length (filter destructive ops)) \<and>
      distinct (map fst by_type') \<and>
      set (map fst by_type') = set (map fst by_type) \<union> op_type ` set ops \<and>
      (\<forall>k. dict_count by_type' k =
           dict_count by_type k + length (filter (\<lambda>op. op_type op = k) ops))"
proof (induction ops arbitrary: by_type n)
  case Nil
  then show ?case by simp
next
  case (Cons op ops)
  let ?b = "AList.update (op_type op) (dict_count by_type (op_type op) + 1) by_type"
  let ?n = "if destructive op then n + 1 else n"
  from Cons.prems have "distinct (map fst ?b)" by (simp add: distinct_update)
  from Cons.IH [OF this, of ?n] obtain by_type' where
    1: "count_loop ops ?b ?n = (by_type', ?n + length (filter destructive ops))"
    and 2: "distinct (map fst by_type')"
    and 3: "set (map fst by_type') = set (map fst ?b) \<union> op_type ` set ops"
    and 4: "\<forall>k. dict_count by_type' k = dict_count ?b k + length (filter (\<lambda>op. op_type op = k) ops)"
    by blast
  have "count_loop (op # ops) by_type n = (by_type', n + length (filter destructive (op # ops)))"
    using 1 by simp
  moreover have "set (map fst by_type') = set (map fst by_type) \<union> op_type ` set (op # ops)"
    using 3 dom_update [of "op_type op" _ by_type] by auto
  moreover have "\<forall>k. dict_count by_type' k =
      dict_count by_type k + length (filter (\<lambda>op. op_type op = k) (op # ops))"
    using 4 by (auto simp: dict_count_update)
  ultimately show ?case using 2 by blast
qed

lemma dry_run_summary_closed: "dry_run_summary ops = summary_spec ops"
proof -
  from count_loop_closed [of "[]" ops 0] obtain by_type where
    1: "count_loop ops [] 0 = (by_type, length (filter destructive ops))"
    and 2: "distinct (map fst by_type)"
    and 3: "set (map fst by_type) = op_type ` set ops"
    and 4: "\<forall>k. dict_count by_type k = length (filter (\<lambda>op. op_type op = k) ops)"
    by (auto simp: dict_count_def)
  have "sort (map fst by_type) = sort (remdups (map op_type ops))"
    using 2 3 by (intro sorted_distinct_set_unique) simp_all
  then show ?thesis
    by (simp add: dry_run_summary_def summary_spec_def Let_def 1 4)
qed

text \<open>
  Claim C9. The dry-run summary reports the total number of operations, one count line per
  operation kind in sorted order of the kinds, and the number of destructive operations.
  In dry-run mode the driver returns that summary of the diff without rendering any SQL,
  so its result is the same for every dialect.
\<close>

theorem dry_run_summary_counts:
  "dry_run_summary ops = summary_spec ops \<and>
   main_core source target dialect True allow =
     do {
       operations \<leftarrow> diff_schemas source target;
       if filter destructive operations \<noteq> [] \<and> \<not> allow
       then Some (Refused (filter destructive operations))
       else Some (Output (summary_spec operations))
     } \<and>
   main_core source target dialect True allow = main_core source target dialect' True allow"
  by (simp add: dry_run_summary_closed main_core_def Let_def cong del: if_weak_cong)

theorem dry_run_summary_counts_witness:
  "dry_run_summary
     [add_column_op ''users'' ''name'' (JObj [(''type'', JStr ''TEXT'')]),
      create_table_op ''tags'' (JObj [(''columns'', JObj [])]),
      drop_column_op ''users'' ''id''] =
   py_join [CHR 0x0A]
     [''Dry-run summary:'', ''  total_operations: 3'', ''  add_column: 1'',
      ''  create_table: 1'', ''  drop_column: 1'', ''  destructive_operations: 1'']"
proof -
  have "summary_spec
     [add_column_op ''users'' ''name'' (JObj [(''type'', JStr ''TEXT'')]),
      create_table_op ''tags'' (JObj [(''columns'', JObj [])]),
      drop_column_op ''users'' ''id''] =
   py_join [CHR 0x0A]
     [''Dry-run summary:'', ''  total_operations: 3'', ''  add_column: 1'',
      ''  create_table: 1'', ''  drop_column: 1'', ''  destructive_operations: 1'']"
    by code_simp
  with dry_run_summary_counts [of "[add_column_op ''users'' ''name'' (JObj [(''type'', JStr ''TEXT'')]),
      create_table_op ''tags'' (JObj [(''columns'', JObj [])]),
      drop_column_op ''users'' ''id'']"]
  show ?thesis by simp
qed

end
